theory Spec2Isabelle
  imports Complex_Main "HOL-Library.Multiset"
begin

section \<open>Seeded random source (rough/math.py)\<close>

text \<open>
  Python floats are modelled as reals and Python integers as \<open>int\<close>.

  The class \<open>Random\<close> keeps an integer \<open>_state\<close>.  When the state is zero,
  \<open>next\<close> returns \<open>random.random()\<close>, the interpreter's global generator, which
  the library never seeds.  That generator is modelled as an unknown stream
  \<open>sys_random\<close> of reals together with the number \<open>sys_used\<close> of values already
  taken from it.  The lazily created attribute \<open>_randgen\<close> of a
  \<open>ResolvedOptions\<close> object is the field \<open>randgen\<close>: \<open>None\<close> while the attribute
  does not exist, \<open>Some s\<close> when it holds a \<open>Random\<close> whose \<open>_state\<close> is \<open>s\<close>.
\<close>

record world =
  randgen :: "int option"
  sys_random :: "nat \<Rightarrow> real"
  sys_used :: nat

definition random_random :: "world \<Rightarrow> real \<times> world" where
  "random_random w = (sys_random w (sys_used w), w\<lparr>sys_used := Suc (sys_used w)\<rparr>)"

text \<open>\<open>Random.next\<close>, on the state \<open>st\<close> of the generator object.\<close>

definition Random_next :: "int \<Rightarrow> world \<Rightarrow> real \<times> int \<times> world" where
  "Random_next st w =
     (if st = 0 then (case random_random w of (r, w') \<Rightarrow> (r, st, w'))
      else (let st' = (st * 48271) mod 2147483647
            in (real_of_int st' / 2147483647, st', w)))"

text \<open>The values returned by \<open>n\<close> successive calls of \<open>next\<close> on one generator.\<close>

fun Random_calls :: "nat \<Rightarrow> int \<Rightarrow> world \<Rightarrow> real list \<times> int \<times> world" where
  "Random_calls 0 st w = ([], st, w)"
| "Random_calls (Suc n) st w =
     (case Random_next st w of (r, st', w') \<Rightarrow>
        (case Random_calls n st' w' of (rs, st'', w'') \<Rightarrow> (r # rs, st'', w'')))"

text \<open>The recurrence as the specification words it: \<open>s\<^sub>0 = seed\<close>,
  \<open>s\<^sub>n\<^sub>+\<^sub>1 = (s\<^sub>n * 48271) mod (2\<^sup>3\<^sup>1 - 1)\<close>.\<close>

fun spec_lcg :: "int \<Rightarrow> nat \<Rightarrow> int" where
  "spec_lcg s 0 = s"
| "spec_lcg s (Suc n) = (spec_lcg s n * 48271) mod (2 ^ 31 - 1)"

section \<open>Options and their resolution (rough/core.py, rough/generator.py)\<close>

text \<open>
  \<open>Options\<close> and its subclass \<open>ResolvedOptions\<close> carry the same attributes; an
  attribute that is \<open>None\<close> in Python is \<open>None\<close> here.  The attributes read only by
  the serialisation layer (fonts, gradients, line dashes, decimal places) are left
  out.  \<open>seed\<close> is never \<open>None\<close>: the constructor replaces a missing seed by 0.
\<close>

record Options =
  maxRandomnessOffset :: "real option"
  roughness :: "real option"
  bowing :: "real option"
  stroke :: "string option"
  strokeWidth :: "real option"
  curveFitting :: "real option"
  curveTightness :: "real option"
  curveStepCount :: "int option"
  fill :: "string option"
  fillStyle :: "string option"
  fillWeight :: "real option"
  hachureAngle :: "real option"
  hachureGap :: "real option"
  dashOffset :: "real option"
  dashGap :: "real option"
  zigzagOffset :: "real option"
  seed :: int
  disableMultiStroke :: "bool option"
  disableMultiStrokeFill :: "bool option"
  preserveVertices :: "bool option"
  fillShapeRoughnessGain :: "real option"

text \<open>\<open>Options()\<close> with no argument.\<close>

definition Options_init :: Options where
  "Options_init =
     \<lparr> maxRandomnessOffset = None, roughness = None, bowing = None, stroke = None,
       strokeWidth = None, curveFitting = None, curveTightness = None,
       curveStepCount = None, fill = None, fillStyle = None, fillWeight = None,
       hachureAngle = None, hachureGap = None, dashOffset = None, dashGap = None,
       zigzagOffset = None, seed = 0, disableMultiStroke = None,
       disableMultiStrokeFill = None, preserveVertices = None,
       fillShapeRoughnessGain = None \<rparr>"

text \<open>\<open>x if x is not None else d\<close>.\<close>

definition or_default :: "'a option \<Rightarrow> 'a \<Rightarrow> 'a" where
  "or_default x d = (case x of None \<Rightarrow> d | Some v \<Rightarrow> v)"

text \<open>Python truthiness of an optional flag.\<close>

definition truthy :: "bool option \<Rightarrow> bool" where
  "truthy b = (case b of None \<Rightarrow> False | Some v \<Rightarrow> v)"

text \<open>
  The three visibility rules, which close both \<open>ResolvedOptions.__init__\<close> and
  \<open>RoughGenerator._o\<close>, in the order of the source.
\<close>

definition hide_zero_width :: "Options \<Rightarrow> Options" where
  "hide_zero_width ro = (if strokeWidth ro = Some 0 then ro\<lparr>stroke := Some ''none''\<rparr> else ro)"

definition default_stroke :: "Options \<Rightarrow> Options" where
  "default_stroke ro =
     (if (stroke ro = None \<or> stroke ro = Some ''none'') \<and>
         fill ro \<in> set [None, Some [], Some ''none'']
      then ro\<lparr>stroke := Some ''#000''\<rparr> else ro)"

definition default_fill :: "Options \<Rightarrow> Options" where
  "default_fill ro =
     (if (fill ro = None \<or> fill ro \<in> set [Some ''none'', Some []]) \<and>
         stroke ro \<in> set [None, Some [], Some ''none'']
      then ro\<lparr>fill := Some ''#0f0''\<rparr> else ro)"

definition visibility_rules :: "Options \<Rightarrow> Options" where
  "visibility_rules ro = default_fill (default_stroke (hide_zero_width ro))"

text \<open>\<open>ResolvedOptions()\<close>: every attribute that is \<open>None\<close> gets its library default
  (\<open>fill\<close> stays \<open>None\<close>), then the visibility rules run.\<close>

definition ResolvedOptions_init :: Options where
  "ResolvedOptions_init = visibility_rules
     \<lparr> maxRandomnessOffset = Some 2, roughness = Some 1, bowing = Some 2,
       stroke = Some ''none'', strokeWidth = Some 2.0, curveFitting = Some 0.95,
       curveTightness = Some 0.1, curveStepCount = Some 9, fill = None,
       fillStyle = Some ''hachure'', fillWeight = Some 1.0, hachureAngle = Some (- 41),
       hachureGap = Some 3.5, dashOffset = Some (- 1), dashGap = Some (- 1),
       zigzagOffset = Some (- 1), seed = 0, disableMultiStroke = Some False,
       disableMultiStrokeFill = Some False, preserveVertices = Some False,
       fillShapeRoughnessGain = Some 0.8 \<rparr>"

text \<open>\<open>for k, v in src.__dict__.items(): if v is not None: setattr(dst, k, v)\<close>.\<close>

definition pick :: "'a option \<Rightarrow> 'a option \<Rightarrow> 'a option" where
  "pick new old = (case new of None \<Rightarrow> old | Some v \<Rightarrow> Some v)"

definition copy_set_fields :: "Options \<Rightarrow> Options \<Rightarrow> Options" where
  "copy_set_fields dst src =
     \<lparr> maxRandomnessOffset = pick (maxRandomnessOffset src) (maxRandomnessOffset dst),
       roughness = pick (roughness src) (roughness dst),
       bowing = pick (bowing src) (bowing dst),
       stroke = pick (stroke src) (stroke dst),
       strokeWidth = pick (strokeWidth src) (strokeWidth dst),
       curveFitting = pick (curveFitting src) (curveFitting dst),
       curveTightness = pick (curveTightness src) (curveTightness dst),
       curveStepCount = pick (curveStepCount src) (curveStepCount dst),
       fill = pick (fill src) (fill dst),
       fillStyle = pick (fillStyle src) (fillStyle dst),
       fillWeight = pick (fillWeight src) (fillWeight dst),
       hachureAngle = pick (hachureAngle src) (hachureAngle dst),
       hachureGap = pick (hachureGap src) (hachureGap dst),
       dashOffset = pick (dashOffset src) (dashOffset dst),
       dashGap = pick (dashGap src) (dashGap dst),
       zigzagOffset = pick (zigzagOffset src) (zigzagOffset dst),
       seed = seed src,
       disableMultiStroke = pick (disableMultiStroke src) (disableMultiStroke dst),
       disableMultiStrokeFill = pick (disableMultiStrokeFill src) (disableMultiStrokeFill dst),
       preserveVertices = pick (preserveVertices src) (preserveVertices dst),
       fillShapeRoughnessGain = pick (fillShapeRoughnessGain src) (fillShapeRoughnessGain dst) \<rparr>"

text \<open>\<open>RoughGenerator.__init__\<close>: the generator's \<open>defaultOptions\<close>, from the options
  of its \<open>Config\<close> when there are any.\<close>

definition RoughGenerator_defaultOptions :: "Options option \<Rightarrow> Options" where
  "RoughGenerator_defaultOptions config_options =
     (case config_options of
        None \<Rightarrow> ResolvedOptions_init
      | Some user_options \<Rightarrow> copy_set_fields ResolvedOptions_init user_options)"

text \<open>The merge at the head of \<open>RoughGenerator._o\<close>, before its visibility rules.\<close>

definition merged_options :: "Options \<Rightarrow> Options option \<Rightarrow> Options" where
  "merged_options defaultOptions options =
     (let ro = copy_set_fields ResolvedOptions_init defaultOptions
      in (case options of None \<Rightarrow> ro | Some local_options \<Rightarrow> copy_set_fields ro local_options))"

text \<open>\<open>RoughGenerator._o\<close>.\<close>

definition RoughGenerator_o :: "Options \<Rightarrow> Options option \<Rightarrow> Options" where
  "RoughGenerator_o defaultOptions options =
     visibility_rules (merged_options defaultOptions options)"

section \<open>Canonical operations (rough/core.py)\<close>

text \<open>\<open>Op(op, data)\<close>: the operation name (\<open>move\<close>, \<open>lineTo\<close> or \<open>bcurveTo\<close>) and
  its numbers.  \<open>OpSet(type_, ops)\<close>: a role tag and the operations.\<close>

datatype Op = Op (op_name: string) (op_data: "real list")

record OpSet =
  opset_type :: string
  opset_ops :: "Op list"

section \<open>Random offsets (rough/renderer.py)\<close>

text \<open>
  Every function that may draw a random number takes the world and returns the new
  one.  \<open>randomFloat\<close> creates the generator of the options object on first use, from
  its seed.
\<close>

definition randomFloat :: "Options \<Rightarrow> world \<Rightarrow> real \<times> world" where
  "randomFloat opts w =
     (let st = (case randgen w of None \<Rightarrow> seed opts | Some s \<Rightarrow> s)
      in (case Random_next st w of (r, st', w') \<Rightarrow> (r, w'\<lparr>randgen := Some st'\<rparr>)))"

definition offsetRange :: "real \<Rightarrow> real \<Rightarrow> Options \<Rightarrow> real \<Rightarrow> world \<Rightarrow> real \<times> world" where
  "offsetRange minv maxv opts gain w =
     (let r = or_default (roughness opts) 1
      in (case randomFloat opts w of (f, w') \<Rightarrow> (r * gain * (f * (maxv - minv) + minv), w')))"

definition offsetOpt :: "real \<Rightarrow> Options \<Rightarrow> real \<Rightarrow> world \<Rightarrow> real \<times> world" where
  "offsetOpt x opts gain w = offsetRange (- x) x opts gain w"

text \<open>The elements of a Python list display are evaluated from left to right.\<close>

fun run_all :: "(world \<Rightarrow> 'a \<times> world) list \<Rightarrow> world \<Rightarrow> 'a list \<times> world" where
  "run_all [] w = ([], w)"
| "run_all (f # fs) w =
     (case f w of (a, w') \<Rightarrow> (case run_all fs w' of (as, w'') \<Rightarrow> (a # as, w'')))"

text \<open>\<open>(0.0 if o.preserveVertices else rnd())\<close>.\<close>

definition unless_preserved :: "Options \<Rightarrow> (world \<Rightarrow> real \<times> world) \<Rightarrow> world \<Rightarrow> real \<times> world" where
  "unless_preserved opts rnd w = (if truthy (preserveVertices opts) then (0, w) else rnd w)"

section \<open>Lines (rough/renderer.py)\<close>

text \<open>The length gain computed at the head of \<open>lineOps\<close>.\<close>

definition roughnessGain :: "real \<Rightarrow> real" where
  "roughnessGain len =
     (if len > 500 then 0.4
      else if len \<ge> 200 then (- 0.0016668) * len + 1.233334
      else 1)"

text \<open>The offset magnitude of \<open>lineOps\<close>: \<open>maxRandomnessOffset\<close>, cut down to a tenth
  of the length for a short segment.\<close>

definition line_moff :: "Options \<Rightarrow> real \<Rightarrow> real" where
  "line_moff opts lengthSq =
     (let moff = or_default (maxRandomnessOffset opts) 2
      in if moff * moff * 100 > lengthSq then sqrt lengthSq / 10 else moff)"

definition lineOps ::
  "real \<Rightarrow> real \<Rightarrow> real \<Rightarrow> real \<Rightarrow> Options \<Rightarrow> bool \<Rightarrow> bool \<Rightarrow> world \<Rightarrow> Op list \<times> world" where
  "lineOps x1 y1 x2 y2 opts move overlay w =
     (let lengthSq = (x1 - x2) ^ 2 + (y1 - y2) ^ 2;
          len = sqrt lengthSq;
          gain = roughnessGain len;
          moff = line_moff opts lengthSq;
          halfOffset = moff / 2
      in (case randomFloat opts w of (rf, w1) \<Rightarrow>
         (let divergePoint = 0.2 + rf * 0.2;
              bowv = or_default (bowing opts) 1
          in (case offsetOpt (bowv * moff * (y2 - y1) / 200) opts gain w1 of (midDispX, w2) \<Rightarrow>
             (case offsetOpt (bowv * moff * (x1 - x2) / 200) opts gain w2 of (midDispY, w3) \<Rightarrow>
             (let rnd = (if overlay then offsetOpt halfOffset opts gain else offsetOpt moff opts gain);
                  pinned = unless_preserved opts rnd
              in (case (if move then run_all [pinned, pinned] w3 else ([], w3)) of (mv, w4) \<Rightarrow>
                 (let c1x = midDispX + x1 + (x2 - x1) * divergePoint;
                      c1y = midDispY + y1 + (y2 - y1) * divergePoint;
                      c2x = midDispX + x1 + 2 * (x2 - x1) * divergePoint;
                      c2y = midDispY + y1 + 2 * (y2 - y1) * divergePoint
                  in (case run_all [rnd, rnd, rnd, rnd, pinned, pinned] w4 of (js, w5) \<Rightarrow>
                       ((if move then [Op ''move'' (map2 (+) [x1, y1] mv)] else [])
                        @ [Op ''bcurveTo'' (map2 (+) [c1x, c1y, c2x, c2y, x2, y2] js)],
                        w5))))))))))"

definition doubleLine ::
  "real \<Rightarrow> real \<Rightarrow> real \<Rightarrow> real \<Rightarrow> Options \<Rightarrow> bool \<Rightarrow> world \<Rightarrow> Op list \<times> world" where
  "doubleLine x1 y1 x2 y2 opts filling w =
     (let singleStroke = (if filling then truthy (disableMultiStrokeFill opts)
                          else truthy (disableMultiStroke opts))
      in (case lineOps x1 y1 x2 y2 opts True False w of (first, w1) \<Rightarrow>
            if singleStroke then (first, w1)
            else (case lineOps x1 y1 x2 y2 opts True True w1 of (second, w2) \<Rightarrow>
                    (first @ second, w2))))"






section \<open>Notions used to state the properties\<close>

text \<open>The system generator \<open>random.random()\<close> returns floats in \<open>[0, 1)\<close>.\<close>

definition unit_source :: "world \<Rightarrow> bool" where
  "unit_source w = (\<forall>n. 0 \<le> sys_random w n \<and> sys_random w n < 1)"

text \<open>The length gain as the specification words it: 1.0 below length 200, a linear
  ramp from 1.0 at 200 down to 0.4 at 500, and 0.4 from 500 on.\<close>

definition spec_gain :: "real \<Rightarrow> real" where
  "spec_gain len =
     (if len < 200 then 1
      else if len < 500 then 1 - 0.6 * (len - 200) / 300
      else 0.4)"

text \<open>A fresh world: the options object has no generator yet.\<close>

definition fresh_world :: "(nat \<Rightarrow> real) \<Rightarrow> world" where
  "fresh_world src = \<lparr>randgen = None, sys_random = src, sys_used = 0\<rparr>"

section \<open>Multi-point curves (rough/renderer.py)\<close>

text \<open>One Catmull-Rom step of \<open>curveOps\<close>, for the index \<open>i\<close> of its loop.\<close>

definition curveOps_step :: "real \<Rightarrow> (real \<times> real) list \<Rightarrow> nat \<Rightarrow> Op" where
  "curveOps_step s points i =
     Op ''bcurveTo''
       [fst (points ! i) + (s * (fst (points ! (i + 1)) - fst (points ! (i - 1)))) / 6,
        snd (points ! i) + (s * (snd (points ! (i + 1)) - snd (points ! (i - 1)))) / 6,
        fst (points ! (i + 1)) + (s * (fst (points ! i) - fst (points ! (i + 2)))) / 6,
        snd (points ! (i + 1)) + (s * (snd (points ! i) - snd (points ! (i + 2)))) / 6,
        fst (points ! (i + 1)), snd (points ! (i + 1))]"

definition curveOps ::
  "(real \<times> real) list \<Rightarrow> (real \<times> real) option \<Rightarrow> Options \<Rightarrow> world \<Rightarrow> Op list \<times> world" where
  "curveOps points closePoint opts w =
     (let cTight = or_default (curveTightness opts) 0
      in if length points > 3 then
           (let s = 1 - cTight;
                ops = Op ''move'' [fst (points ! 1), snd (points ! 1)]
                      # map (curveOps_step s points) [1 ..< length points - 2]
            in (case closePoint of
                  None \<Rightarrow> (ops, w)
                | Some cp \<Rightarrow>
                    (let ro = or_default (maxRandomnessOffset opts) 2
                     in (case run_all [offsetOpt ro opts 1, offsetOpt ro opts 1] w of (js, w') \<Rightarrow>
                           (ops @ [Op ''lineTo'' (map2 (+) [fst cp, snd cp] js)], w')))))
         else if length points = 3 then
           ([Op ''move'' [fst (points ! 1), snd (points ! 1)],
             Op ''bcurveTo'' [fst (points ! 1), snd (points ! 1),
                              fst (points ! 2), snd (points ! 2),
                              fst (points ! 2), snd (points ! 2)]], w)
         else if length points = 2 then
           lineOps (fst (points ! 0)) (snd (points ! 0)) (fst (points ! 1)) (snd (points ! 1))
             opts True True w
         else ([], w))"

text \<open>The loop of \<open>curveWithOffset\<close> over the points after the first: each is offset,
  and the last one is appended twice.\<close>

fun curveWithOffset_rest ::
  "(real \<times> real) list \<Rightarrow> real \<Rightarrow> Options \<Rightarrow> world \<Rightarrow> (real \<times> real) list \<times> world" where
  "curveWithOffset_rest [] offset opts w = ([], w)"
| "curveWithOffset_rest (p # rest) offset opts w =
     (case run_all [offsetOpt offset opts 1, offsetOpt offset opts 1] w of (js, w1) \<Rightarrow>
        (let q = (fst p + js ! 0, snd p + js ! 1)
         in (case curveWithOffset_rest rest offset opts w1 of (qs, w2) \<Rightarrow>
               ((if rest = [] then [q, q] else [q]) @ qs, w2))))"

definition curveWithOffset ::
  "(real \<times> real) list \<Rightarrow> real \<Rightarrow> Options \<Rightarrow> world \<Rightarrow> Op list \<times> world" where
  "curveWithOffset points offset opts w =
     (case points of
        [] \<Rightarrow> ([], w)
      | p # rest \<Rightarrow>
          (case run_all [offsetOpt offset opts 1, offsetOpt offset opts 1,
                         offsetOpt offset opts 1, offsetOpt offset opts 1] w of (js, w1) \<Rightarrow>
             (let ps = [(fst p + js ! 0, snd p + js ! 1), (fst p + js ! 2, snd p + js ! 3)]
              in (case curveWithOffset_rest rest offset opts w1 of (qs, w2) \<Rightarrow>
                    curveOps (ps @ qs) None opts w2))))"

text \<open>\<open>cloneOptionsSeed\<close>: a copy with the seed incremented and without the generator.
  A computation on the copy creates a generator of its own, which is dropped with the
  copy; the generator of the original is untouched.\<close>

definition cloneOptionsSeed :: "Options \<Rightarrow> Options" where
  "cloneOptionsSeed opts = opts\<lparr>seed := seed opts + 1\<rparr>"

definition on_fresh_clone :: "(world \<Rightarrow> 'a \<times> world) \<Rightarrow> world \<Rightarrow> 'a \<times> world" where
  "on_fresh_clone f w =
     (case f (w\<lparr>randgen := None\<rparr>) of (a, w') \<Rightarrow> (a, w'\<lparr>randgen := randgen w\<rparr>))"

text \<open>\<open>curve\<close> on a single list of points.\<close>

definition curve :: "(real \<times> real) list \<Rightarrow> Options \<Rightarrow> world \<Rightarrow> OpSet \<times> world" where
  "curve points opts w =
     (if points = [] then (\<lparr>opset_type = ''path'', opset_ops = []\<rparr>, w)
      else
        (let amt1 = 1 * (1 + or_default (roughness opts) 1 * 0.2);
             amt2 = (if \<not> truthy (disableMultiStroke opts)
                     then 1.5 * (1 + or_default (roughness opts) 1 * 0.22) else 0)
         in (case curveWithOffset points amt1 opts w of (under_ops, w1) \<Rightarrow>
               (case (if \<not> truthy (disableMultiStroke opts)
                      then on_fresh_clone (curveWithOffset points amt2 (cloneOptionsSeed opts)) w1
                      else ([], w1)) of (over_ops, w2) \<Rightarrow>
                  (\<lparr>opset_type = ''path'', opset_ops = under_ops @ over_ops\<rparr>, w2)))))"

section \<open>Cubic segments of a path (rough/renderer.py)\<close>

text \<open>One pass of the loop of \<open>cubicBezierOps\<close>; \<open>i\<close> is the pass number.\<close>

definition cubicBezierOps_pass ::
  "nat \<Rightarrow> real \<Rightarrow> real \<Rightarrow> real \<Rightarrow> real \<Rightarrow> real \<Rightarrow> real \<Rightarrow> real \<times> real \<Rightarrow> Options \<Rightarrow> world
   \<Rightarrow> Op list \<times> world" where
  "cubicBezierOps_pass i cx1 cy1 cx2 cy2 ex ey current opts w =
     (let base = or_default (maxRandomnessOffset opts) 2;
          ro = base + (if i > 0 then 0.3 else 0);
          sx = fst current; sy = snd current
      in (case (if i = 0 then ([sx, sy], w)
                else (case run_all [unless_preserved opts (offsetOpt base opts 1),
                                    unless_preserved opts (offsetOpt base opts 1)] w of
                        (mv, w') \<Rightarrow> (map2 (+) [sx, sy] mv, w'))) of (start, w1) \<Rightarrow>
         (case run_all (replicate 6 (unless_preserved opts (offsetOpt ro opts 1))) w1 of (js, w2) \<Rightarrow>
            ([Op ''move'' start,
              Op ''bcurveTo'' (map2 (+) [cx1, cy1, cx2, cy2, ex, ey] js)], w2))))"

definition cubicBezierOps ::
  "real \<Rightarrow> real \<Rightarrow> real \<Rightarrow> real \<Rightarrow> real \<Rightarrow> real \<Rightarrow> real \<times> real \<Rightarrow> Options \<Rightarrow> world
   \<Rightarrow> Op list \<times> world" where
  "cubicBezierOps cx1 cy1 cx2 cy2 ex ey current opts w =
     (case cubicBezierOps_pass 0 cx1 cy1 cx2 cy2 ex ey current opts w of (ops1, w1) \<Rightarrow>
        if truthy (disableMultiStroke opts) then (ops1, w1)
        else (case cubicBezierOps_pass 1 cx1 cy1 cx2 cy2 ex ey current opts w1 of (ops2, w2) \<Rightarrow>
                (ops1 @ ops2, w2)))"

text \<open>A source of zeros and a source of halves for the system generator.\<close>

definition zero_source :: "nat \<Rightarrow> real" where
  "zero_source n = 0"

definition half_source :: "nat \<Rightarrow> real" where
  "half_source n = 1 / 2"

section \<open>Notions used to state determinism\<close>

text \<open>The generator of the options object is, or will be created, in a state that is
  not a multiple of \<open>2\<^sup>3\<^sup>1 - 1\<close>.\<close>

definition seeded :: "Options \<Rightarrow> world \<Rightarrow> bool" where
  "seeded opts w =
     ((case randgen w of None \<Rightarrow> seed opts | Some s \<Rightarrow> s) mod 2147483647 \<noteq> 0)"

text \<open>A computation is deterministic when, from a seeded world, its value and the
  state of the generator it leaves depend on the state of the generator alone, not on
  the system generator, and the world it leaves is seeded again.\<close>

definition deterministic :: "Options \<Rightarrow> (world \<Rightarrow> 'a \<times> world) \<Rightarrow> bool" where
  "deterministic opts f =
     (\<forall>w w'. seeded opts w \<and> randgen w' = randgen w \<longrightarrow>
        fst (f w') = fst (f w) \<and> randgen (snd (f w')) = randgen (snd (f w))
        \<and> seeded opts (snd (f w)))"

text \<open>The options a generator without configuration resolves from \<open>Options(seed=s)\<close>.\<close>

definition seed_options :: "int \<Rightarrow> Options" where
  "seed_options s =
     RoughGenerator_o (RoughGenerator_defaultOptions None) (Some (Options_init\<lparr>seed := s\<rparr>))"

text \<open>The same for \<open>Options(seed=s, preserveVertices=True)\<close>.\<close>

definition preserve_options :: "int \<Rightarrow> Options" where
  "preserve_options s =
     RoughGenerator_o (RoughGenerator_defaultOptions None)
       (Some (Options_init\<lparr>seed := s, preserveVertices := Some True\<rparr>))"

section \<open>Arc angle normalisation (rough/renderer.py)\<close>

text \<open>
  The head of \<open>arc\<close> (and, word for word, of \<open>patternFillArc\<close>) normalises the two
  angles before any point is generated:
  \<^verbatim>\<open>while strt < 0: strt += math.pi * 2; stp += math.pi * 2\<close>
  \<^verbatim>\<open>if (stp - strt) > (math.pi * 2): strt = 0; stp = math.pi * 2\<close>
\<close>

function arc_normalize_loop :: "real \<Rightarrow> real \<Rightarrow> real \<times> real" where
  "arc_normalize_loop strt stp =
     (if strt < 0 then arc_normalize_loop (strt + pi * 2) (stp + pi * 2) else (strt, stp))"
  by pat_completeness auto
termination
proof (relation "measure (\<lambda>(strt, stp). nat \<lceil>- strt / (pi * 2)\<rceil>)")
  show "wf (measure (\<lambda>(strt, stp). nat \<lceil>- strt / (pi * 2)\<rceil>))" by simp
next
  fix strt stp :: real
  assume neg: "strt < 0"
  define a where "a = - strt / (pi * 2)"
  have "- (strt + pi * 2) / (pi * 2) = a - 1"
    by (simp add: a_def field_simps)
  then have e: "\<lceil>- (strt + pi * 2) / (pi * 2)\<rceil> = \<lceil>a\<rceil> - 1"
    by (simp only: ceiling_diff_one)
  have "0 < a" unfolding a_def using neg by (simp add: divide_neg_pos)
  then have p: "0 < \<lceil>a\<rceil>" by (simp only: zero_less_ceiling)
  have "nat \<lceil>- (strt + pi * 2) / (pi * 2)\<rceil> < nat \<lceil>- strt / (pi * 2)\<rceil>"
    unfolding e a_def[symmetric] using p by linarith
  then show "((strt + pi * 2, stp + pi * 2), (strt, stp))
      \<in> measure (\<lambda>(strt, stp). nat \<lceil>- strt / (pi * 2)\<rceil>)"
    by (simp only: in_measure prod.case)
qed

declare arc_normalize_loop.simps [simp del]

definition arc_normalize :: "real \<Rightarrow> real \<Rightarrow> real \<times> real" where
  "arc_normalize start stop =
     (case arc_normalize_loop start stop of (strt, stp) \<Rightarrow>
        if (stp - strt) > pi * 2 then (0, pi * 2) else (strt, stp))"

section \<open>Scan-line hachure (rough/fillers/scan_line_hachure.py)\<close>

text \<open>\<open>math.radians\<close>.\<close>

definition radians :: "real \<Rightarrow> real" where
  "radians d = d * pi / 180"

definition rotatePoint :: "real \<times> real \<Rightarrow> real \<Rightarrow> real \<times> real" where
  "rotatePoint p theta =
     (let cosA = cos theta; sinA = sin theta
      in (fst p * cosA - snd p * sinA, fst p * sinA + snd p * cosA))"

definition edge_intersects_scanline :: "real \<times> real \<Rightarrow> real \<times> real \<Rightarrow> real \<Rightarrow> bool" where
  "edge_intersects_scanline p1 p2 scanY =
     (let y1 = snd p1; y2 = snd p2
      in if \<bar>y1 - y2\<bar> < 1 / 10 ^ 14 \<and> \<bar>y1 - scanY\<bar> < 1 / 10 ^ 14 then False
         else if scanY \<le> min y1 y2 \<or> scanY \<ge> max y1 y2 then False
         else True)"

definition xIntersect :: "real \<times> real \<Rightarrow> real \<times> real \<Rightarrow> real \<Rightarrow> real option" where
  "xIntersect p1 p2 y =
     (let dy = snd p2 - snd p1
      in if \<bar>dy\<bar> < 1 / 10 ^ 14 then None
         else Some (fst p1 + ((y - snd p1) / dy) * (fst p2 - fst p1)))"

text \<open>The crossing, if any, of the edge that starts at index \<open>i\<close>, with its sign.\<close>

definition edge_crossing :: "(real \<times> real) list \<Rightarrow> real \<Rightarrow> nat \<Rightarrow> (real \<times> real) list" where
  "edge_crossing rpoly scanY i =
     (let p1 = rpoly ! i; p2 = rpoly ! ((i + 1) mod length rpoly)
      in if edge_intersects_scanline p1 p2 scanY then
           (case xIntersect p1 p2 scanY of
              None \<Rightarrow> []
            | Some xint \<Rightarrow> [(xint, if snd p2 > snd p1 then 1 else - 1)])
         else [])"

text \<open>Python's \<open>list.sort\<close> is stable, as is \<open>sort_key\<close>.\<close>

definition horizontalIntersectionsNonZero :: "(real \<times> real) list \<Rightarrow> real \<Rightarrow> (real \<times> real) list" where
  "horizontalIntersectionsNonZero rpoly scanY =
     (if length rpoly < 2 then []
      else sort_key fst (concat (map (edge_crossing rpoly scanY) [0 ..< length rpoly])))"

text \<open>The inner loop over the sorted crossings: \<open>running_winding\<close> and \<open>prev_x\<close> are
  its state, the result the segments it appends.\<close>

fun winding_segments :: "(real \<times> real) list \<Rightarrow> real \<Rightarrow> real option \<Rightarrow> (real \<times> real) list" where
  "winding_segments [] running_winding prev_x = []"
| "winding_segments ((cx, dW) # rest) running_winding prev_x =
     (case prev_x of
        Some px \<Rightarrow> (if running_winding \<noteq> 0 \<and> cx > px then [(px, cx)] else [])
      | None \<Rightarrow> [])
     @ winding_segments rest (running_winding + dW) (Some cx)"

text \<open>The lines one pass of the \<open>while\<close> loop appends for the scan line at \<open>y\<close>.\<close>

definition scan_line :: "(real \<times> real) list \<Rightarrow> real \<Rightarrow> real \<Rightarrow> ((real \<times> real) \<times> (real \<times> real)) list" where
  "scan_line rpoly angle_rad y =
     (let crossing_data = horizontalIntersectionsNonZero rpoly y
      in if crossing_data = [] then []
         else map (\<lambda>(xstart, xend). (rotatePoint (xstart, y) angle_rad, rotatePoint (xend, y) angle_rad))
                (winding_segments crossing_data 0 None))"

text \<open>
  The loop variable of the sweep is advanced by \<open>y += gap\<close>, an addition of Python
  floats: the exact sum rounded to the nearest binary64 number, a tie going to the
  even significand.  \<open>round_double\<close> is that rounding on the reals, with 53 significant
  bits and an unbounded exponent range (overflow to infinity and subnormal numbers are
  not modelled); \<open>round_even\<close> rounds to the nearest integer, a tie going to the even one.
\<close>

definition round_even :: "real \<Rightarrow> int" where
  "round_even q =
     (let f = \<lfloor>q\<rfloor>; r = q - of_int f
      in if r < 1 / 2 then f else if r > 1 / 2 then f + 1 else if even f then f else f + 1)"

definition round_double :: "real \<Rightarrow> real" where
  "round_double x =
     (if x = 0 then 0
      else (let u = 2 powr (of_int \<lfloor>log 2 \<bar>x\<bar>\<rfloor> - 52)
            in of_int (round_even (x / u)) * u))"

definition float_add :: "real \<Rightarrow> real \<Rightarrow> real" where
  "float_add a b = round_double (a + b)"

text \<open>The \<open>while y <= maxY\<close> loop.  Each pass takes one unit of fuel; \<open>None\<close> means the
  fuel ran out before the loop ended.\<close>

fun scan_loop ::
  "nat \<Rightarrow> (real \<times> real) list \<Rightarrow> real \<Rightarrow> real \<Rightarrow> real \<Rightarrow> real
   \<Rightarrow> ((real \<times> real) \<times> (real \<times> real)) list option" where
  "scan_loop fuel rpoly gap angle_rad maxY y =
     (if y \<le> maxY then
        (case fuel of
           0 \<Rightarrow> None
         | Suc n \<Rightarrow>
             (case scan_loop n rpoly gap angle_rad maxY (float_add y gap) of
                None \<Rightarrow> None
              | Some rest \<Rightarrow> Some (scan_line rpoly angle_rad y @ rest)))
      else Some [])"

declare scan_loop.simps [simp del]

text \<open>The spacing of the scan lines, clamped.\<close>

definition hachure_gap :: "Options \<Rightarrow> real" where
  "hachure_gap opts =
     max (case hachureGap opts of
            Some g \<Rightarrow> (if g \<ge> 0 then g else or_default (strokeWidth opts) 2 * 4)
          | None \<Rightarrow> or_default (strokeWidth opts) 2 * 4)
         0.1"

definition hachure_angle_rad :: "Options \<Rightarrow> real" where
  "hachure_angle_rad opts = radians (- (or_default (hachureAngle opts) (- 41) + 90))"

text \<open>\<open>rpoly\<close>: the polygon rotated so that the hachure direction is level.\<close>

definition rotated_polygon :: "Options \<Rightarrow> (real \<times> real) list \<Rightarrow> (real \<times> real) list" where
  "rotated_polygon opts poly = map (\<lambda>p. rotatePoint p (- hachure_angle_rad opts)) poly"

text \<open>The body of the loop over the polygons, for one polygon.\<close>

definition polygon_lines ::
  "nat \<Rightarrow> (real \<times> real) list \<Rightarrow> Options \<Rightarrow> ((real \<times> real) \<times> (real \<times> real)) list option" where
  "polygon_lines fuel poly opts =
     (if length poly < 3 then Some []
      else
        (let angle_rad = hachure_angle_rad opts;
             rpoly = rotated_polygon opts poly;
             minY = Min (set (map snd rpoly));
             maxY = Max (set (map snd rpoly))
         in scan_loop fuel rpoly (hachure_gap opts) angle_rad maxY minY))"

fun polygon_hachure_lines ::
  "nat \<Rightarrow> (real \<times> real) list list \<Rightarrow> Options
   \<Rightarrow> ((real \<times> real) \<times> (real \<times> real)) list option" where
  "polygon_hachure_lines fuel [] opts = Some []"
| "polygon_hachure_lines fuel (poly # polygonList) opts =
     (case polygon_lines fuel poly opts of
        None \<Rightarrow> None
      | Some ls \<Rightarrow>
          (case polygon_hachure_lines fuel polygonList opts of
             None \<Rightarrow> None
           | Some rest \<Rightarrow> Some (ls @ rest)))"

section \<open>Path strings (rough/renderer.py)\<close>

text \<open>The exceptions the path code can raise when it indexes, unpacks or divides.\<close>

datatype py_error = IndexError | ValueError | ZeroDivisionError

text \<open>
  Path strings are taken to be ASCII.  \<open>is_space\<close> is the class \<open>\s\<close> of \<open>re\<close> on
  ASCII characters (tab, line feed, vertical tab, form feed, carriage return, the four
  separators \<open>0x1c\<close> to \<open>0x1f\<close> and the space); \<open>is_cmd\<close> is the test of the same name.
\<close>

definition is_space :: "char \<Rightarrow> bool" where
  "is_space c = (of_char c \<in> set [9, 10, 11, 12, 13, 28, 29, 30, 31, 32 :: nat])"

definition is_cmd_char :: "char \<Rightarrow> bool" where
  "is_cmd_char c = (c \<in> set ''aAcChHlLmMqQsStTvVzZ'')"

definition is_cmd :: "string \<Rightarrow> bool" where
  "is_cmd x = (case x of [c] \<Rightarrow> is_cmd_char c | _ \<Rightarrow> False)"

text \<open>\<open>str.strip()\<close>.\<close>

definition strip :: "string \<Rightarrow> string" where
  "strip s = rev (dropWhile is_space (rev (dropWhile is_space s)))"

text \<open>\<open>re.sub(r"\s+", " ", d)\<close>: every maximal run of white space becomes one space.\<close>

function collapse_spaces :: "string \<Rightarrow> string" where
  "collapse_spaces [] = []"
| "collapse_spaces (c # cs) =
     (if is_space c then CHR '' '' # collapse_spaces (dropWhile is_space cs)
      else c # collapse_spaces cs)"
  by pat_completeness auto
termination
  by (relation "measure length") (auto simp: length_dropWhile_le less_Suc_eq_le)

text \<open>\<open>d.split(" ")\<close>: the pieces between single spaces, empty pieces included.\<close>

fun split_space :: "string \<Rightarrow> string list" where
  "split_space [] = [[]]"
| "split_space (c # cs) =
     (if c = CHR '' '' then [] # split_space cs
      else (case split_space cs of [] \<Rightarrow> [[c]] | t # ts \<Rightarrow> (c # t) # ts))"

definition path_tokens :: "string \<Rightarrow> string list" where
  "path_tokens d =
     (let d1 = map (\<lambda>c. if c = CHR '','' then CHR '' '' else c) d;
          d2 = concat (map (\<lambda>c. if is_cmd_char c then [CHR '' '', c, CHR '' ''] else [c]) d1);
          d3 = strip (collapse_spaces d2)
      in split_space d3)"

text \<open>
  The token loop of \<open>parsePathCommands\<close>.  A segment \<open>[cmd, n1, n2, ...]\<close> is the pair of
  its command and its numbers.  \<open>float\<close> is the interpreter's, taken as a parameter:
  \<open>None\<close> where it raises \<open>ValueError\<close>.  \<open>segs[-1]\<close> raises \<open>IndexError\<close> on an empty
  list, and only \<open>ValueError\<close> is caught.
\<close>

fun parse_tokens ::
  "(string \<Rightarrow> real option) \<Rightarrow> string list \<Rightarrow> (string \<times> real list) list
   \<Rightarrow> py_error + (string \<times> real list) list" where
  "parse_tokens float [] segs = Inr segs"
| "parse_tokens float (t # ts) segs =
     (if is_cmd t then parse_tokens float ts (segs @ [(t, [])])
      else (case float t of
              None \<Rightarrow> parse_tokens float ts segs
            | Some val \<Rightarrow>
                (if segs = [] then Inl IndexError
                 else parse_tokens float ts
                        (butlast segs @ [(fst (last segs), snd (last segs) @ [val])]))))"

definition parsePathCommands ::
  "(string \<Rightarrow> real option) \<Rightarrow> string \<Rightarrow> py_error + (string \<times> real list) list" where
  "parsePathCommands float d = parse_tokens float (path_tokens d) []"

text \<open>\<open>toAbsolute\<close>.  Its state: the result so far, the current point and the start of
  the subpath.  Each command has a loop over its numbers, in groups.\<close>

record abs_state =
  abs_result :: "(string \<times> real list) list"
  abs_current :: "real \<times> real"
  abs_first :: "real \<times> real"

fun abs_moveto :: "bool \<Rightarrow> real list \<Rightarrow> abs_state \<Rightarrow> abs_state" where
  "abs_moveto isLower (x # y # nums) st =
     (let x' = (if isLower then x + fst (abs_current st) else x);
          y' = (if isLower then y + snd (abs_current st) else y);
          st1 = st\<lparr>abs_current := (x', y')\<rparr>;
          st2 = (if abs_result st1 = [] then st1\<lparr>abs_first := abs_current st1\<rparr> else st1)
      in abs_moveto isLower nums (st2\<lparr>abs_result := abs_result st2 @ [(''M'', [x', y'])]\<rparr>))"
| "abs_moveto isLower nums st = st"

fun abs_lineto :: "bool \<Rightarrow> real list \<Rightarrow> abs_state \<Rightarrow> abs_state" where
  "abs_lineto isLower (x # y # nums) st =
     (let x' = (if isLower then x + fst (abs_current st) else x);
          y' = (if isLower then y + snd (abs_current st) else y)
      in abs_lineto isLower nums
           (st\<lparr>abs_result := abs_result st @ [(''L'', [x', y'])], abs_current := (x', y')\<rparr>))"
| "abs_lineto isLower nums st = st"

fun abs_horizontal :: "bool \<Rightarrow> real list \<Rightarrow> abs_state \<Rightarrow> abs_state" where
  "abs_horizontal isLower (vx # nums) st =
     (let vx' = (if isLower then vx + fst (abs_current st) else vx)
      in abs_horizontal isLower nums
           (st\<lparr>abs_result := abs_result st @ [(''H'', [vx'])],
               abs_current := (vx', snd (abs_current st))\<rparr>))"
| "abs_horizontal isLower [] st = st"

fun abs_vertical :: "bool \<Rightarrow> real list \<Rightarrow> abs_state \<Rightarrow> abs_state" where
  "abs_vertical isLower (vy # nums) st =
     (let vy' = (if isLower then vy + snd (abs_current st) else vy)
      in abs_vertical isLower nums
           (st\<lparr>abs_result := abs_result st @ [(''V'', [vy'])],
               abs_current := (fst (abs_current st), vy')\<rparr>))"
| "abs_vertical isLower [] st = st"

fun abs_cubic :: "bool \<Rightarrow> real list \<Rightarrow> abs_state \<Rightarrow> abs_state" where
  "abs_cubic isLower (cx1 # cy1 # cx2 # cy2 # x3 # y3 # nums) st =
     (let dx = (if isLower then fst (abs_current st) else 0);
          dy = (if isLower then snd (abs_current st) else 0)
      in abs_cubic isLower nums
           (st\<lparr>abs_result := abs_result st
                    @ [(''C'', [cx1 + dx, cy1 + dy, cx2 + dx, cy2 + dy, x3 + dx, y3 + dy])],
               abs_current := (x3 + dx, y3 + dy)\<rparr>))"
| "abs_cubic isLower nums st = st"

fun abs_quadratic :: "bool \<Rightarrow> real list \<Rightarrow> abs_state \<Rightarrow> abs_state" where
  "abs_quadratic isLower (qx # qy # x3 # y3 # nums) st =
     (let dx = (if isLower then fst (abs_current st) else 0);
          dy = (if isLower then snd (abs_current st) else 0)
      in abs_quadratic isLower nums
           (st\<lparr>abs_result := abs_result st @ [(''Q'', [qx + dx, qy + dy, x3 + dx, y3 + dy])],
               abs_current := (x3 + dx, y3 + dy)\<rparr>))"
| "abs_quadratic isLower nums st = st"

fun abs_arc :: "bool \<Rightarrow> real list \<Rightarrow> abs_state \<Rightarrow> abs_state" where
  "abs_arc isLower (rx # ry # xrot # laf # swf # ex # ey # nums) st =
     (let ex' = (if isLower then ex + fst (abs_current st) else ex);
          ey' = (if isLower then ey + snd (abs_current st) else ey)
      in abs_arc isLower nums
           (st\<lparr>abs_result := abs_result st @ [(''A'', [rx, ry, xrot, laf, swf, ex', ey'])],
               abs_current := (ex', ey')\<rparr>))"
| "abs_arc isLower nums st = st"

definition is_lower_cmd :: "string \<Rightarrow> bool" where
  "is_lower_cmd cmd = (cmd \<in> set (map (\<lambda>c. [c]) ''achlmqstvz''))"

definition upper_cmd :: "string \<Rightarrow> string" where
  "upper_cmd cmd = map (\<lambda>c. if of_char c \<in> {97 .. 122 :: nat} then char_of (of_char c - 32 :: nat) else c) cmd"

definition toAbsolute_step :: "abs_state \<Rightarrow> string \<times> real list \<Rightarrow> abs_state" where
  "toAbsolute_step st seg =
     (let cmd = fst seg; nums = snd seg;
          isLower = is_lower_cmd cmd; upcmd = upper_cmd cmd
      in if upcmd = ''M'' then
           (let st' = abs_moveto isLower nums st in st'\<lparr>abs_first := abs_current st'\<rparr>)
         else if upcmd = ''L'' then abs_lineto isLower nums st
         else if upcmd = ''H'' then abs_horizontal isLower nums st
         else if upcmd = ''V'' then abs_vertical isLower nums st
         else if upcmd = ''C'' then abs_cubic isLower nums st
         else if upcmd = ''Q'' then abs_quadratic isLower nums st
         else if upcmd = ''A'' then abs_arc isLower nums st
         else if upcmd = ''Z'' then
           st\<lparr>abs_result := abs_result st @ [(''Z'', [])], abs_current := abs_first st\<rparr>
         else st)"

definition toAbsolute :: "(string \<times> real list) list \<Rightarrow> (string \<times> real list) list" where
  "toAbsolute segments =
     abs_result (foldl toAbsolute_step
                   \<lparr>abs_result = [], abs_current = (0, 0), abs_first = (0, 0)\<rparr> segments)"

section \<open>Elliptical arcs of a path (rough/renderer.py)\<close>

text \<open>Python's \<open>%\<close> on floats (the sign of the divisor) and \<open>math.fmod\<close> (the sign of
  the dividend).\<close>

definition py_mod :: "real \<Rightarrow> real \<Rightarrow> real" where
  "py_mod x m = x - m * of_int \<lfloor>x / m\<rfloor>"

definition py_fmod :: "real \<Rightarrow> real \<Rightarrow> real" where
  "py_fmod x y = x - y * of_int (if x / y \<ge> 0 then \<lfloor>x / y\<rfloor> else \<lceil>x / y\<rceil>)"

definition arcSegmentToCubic ::
  "real \<Rightarrow> real \<Rightarrow> real \<Rightarrow> real \<Rightarrow> real \<Rightarrow> real \<Rightarrow> real \<Rightarrow> real list" where
  "arcSegmentToCubic cx cy rx ry phi start_ang end_ang =
     (let alpha = (end_ang - start_ang) / 2
      in if \<bar>alpha\<bar> < 1 / 10 ^ 9 then
           (let mid = (start_ang + end_ang) * 0.5;
                x3 = cx + rx * cos mid * cos phi - ry * sin mid * sin phi;
                y3 = cy + rx * cos mid * sin phi + ry * sin mid * cos phi
            in [x3, y3, x3, y3, x3, y3])
         else
           (let x1 = rx * cos start_ang; y1 = ry * sin start_ang;
                x2 = rx * cos end_ang; y2 = ry * sin end_ang;
                l = (if \<bar>sin alpha\<bar> < 1 / 10 ^ 9 then 0 else (4 / 3) * tan (alpha / 2));
                c1x = x1 - l * rx * sin start_ang; c1y = y1 + l * ry * cos start_ang;
                c2x = x2 + l * rx * sin end_ang; c2y = y2 - l * ry * cos end_ang;
                rot = (\<lambda>px py. (px * cos phi - py * sin phi + cx, px * sin phi + py * cos phi + cy))
            in [fst (rot c1x c1y), snd (rot c1x c1y), fst (rot c2x c2y), snd (rot c2x c2y),
                fst (rot x2 y2), snd (rot x2 y2)]))"

text \<open>The local function \<open>angle\<close> of \<open>ellipticalArcToBezier\<close>.\<close>

definition arc_angle :: "real \<times> real \<Rightarrow> real \<times> real \<Rightarrow> real" where
  "arc_angle u v =
     (let dot = fst u * fst v + snd u * snd v;
          mag = sqrt ((fst u ^ 2 + snd u ^ 2) * (fst v ^ 2 + snd v ^ 2))
      in if mag < 1 / 10 ^ 12 then 0
         else (let sign2 = (if fst u * snd v - snd u * fst v < 0 then - 1 else 1);
                   val = max (- 1) (min 1 (dot / mag))
               in sign2 * arccos val))"

definition ellipticalArcToBezier ::
  "real \<Rightarrow> real \<Rightarrow> real \<Rightarrow> real \<Rightarrow> real \<Rightarrow> real \<Rightarrow> real \<Rightarrow> real \<Rightarrow> real
   \<Rightarrow> py_error + real list list" where
  "ellipticalArcToBezier x1 y1 x2 y2 rx0 ry0 phi fa fs =
     (if \<bar>x1 - x2\<bar> < 1 / 10 ^ 9 \<and> \<bar>y1 - y2\<bar> < 1 / 10 ^ 9 then Inr []
      else if rx0 = 0 \<or> ry0 = 0 then Inr [[x1, y1, x2, y2, x2, y2]]
      else
        (let x1p = cos phi * (x1 - x2) / 2 + sin phi * (y1 - y2) / 2;
             y1p = - sin phi * (x1 - x2) / 2 + cos phi * (y1 - y2) / 2
         in if \<bar>x1p\<bar> < 1 / 10 ^ 9 \<and> \<bar>y1p\<bar> < 1 / 10 ^ 9 then Inr []
            else
              (let x1p2 = x1p * x1p; y1p2 = y1p * y1p;
                   lam = x1p2 / (rx0 * rx0) + y1p2 / (ry0 * ry0);
                   rx = (if lam > 1 then rx0 * sqrt lam else rx0);
                   ry = (if lam > 1 then ry0 * sqrt lam else ry0);
                   rx2 = rx * rx; ry2 = ry * ry;
                   sign = (if fa \<noteq> fs then 1 else - 1);
                   num = max (rx2 * ry2 - rx2 * y1p2 - ry2 * x1p2) 0;
                   den = rx2 * y1p2 + ry2 * x1p2
               in if \<bar>den\<bar> < 1 / 10 ^ 12 then Inr []
                  else
                    (let c = sign * sqrt (num / den);
                         cxp = c * (rx * y1p / ry);
                         cyp = c * (- ry * x1p / rx);
                         cx = cos phi * cxp - sin phi * cyp + (x1 + x2) / 2;
                         cy = sin phi * cxp + cos phi * cyp + (y1 + y2) / 2;
                         ux = (x1p - cxp) / rx; uy = (y1p - cyp) / ry;
                         vx = (- x1p - cxp) / rx; vy = (- y1p - cyp) / ry;
                         start_ang = arc_angle (1, 0) (ux, uy);
                         sweep0 = arc_angle (ux, uy) (vx, vy);
                         sweep1 = (if fs = 0 \<and> sweep0 > 0 then sweep0 - 2 * pi
                                   else if fs \<noteq> 0 \<and> sweep0 < 0 then sweep0 + 2 * pi
                                   else sweep0);
                         sweep_ang = py_fmod sweep1 (2 * pi);
                         seg_count = nat \<lceil>\<bar>sweep_ang\<bar> / (pi / 2)\<rceil>
                     in if seg_count = 0 then Inl ZeroDivisionError
                        else
                          (let seg_sweep = sweep_ang / real seg_count
                           in Inr (map (\<lambda>i. arcSegmentToCubic cx cy rx ry phi
                                                (start_ang + real i * seg_sweep)
                                                (start_ang + real i * seg_sweep + seg_sweep))
                                     [0 ..< seg_count]))))))"

text \<open>The loops of \<open>arcToCubics\<close> and \<open>singleArc\<close> over the cubics of one arc.\<close>

fun arcToCubics_loop ::
  "real list list \<Rightarrow> real \<times> real \<Rightarrow> Options \<Rightarrow> world \<Rightarrow> py_error + Op list \<times> world" where
  "arcToCubics_loop [] last_pt opts w = Inr ([], w)"
| "arcToCubics_loop (c # beziers) last_pt opts w =
     (case c of
        [cx1, cy1, cx2, cy2, x3, y3] \<Rightarrow>
          (case cubicBezierOps cx1 cy1 cx2 cy2 x3 y3 last_pt opts w of (ops, w1) \<Rightarrow>
             (case arcToCubics_loop beziers (x3, y3) opts w1 of
                Inl e \<Rightarrow> Inl e
              | Inr (rest, w2) \<Rightarrow> Inr (ops @ rest, w2)))
      | _ \<Rightarrow> Inl ValueError)"

definition arcToCubics ::
  "real \<times> real \<Rightarrow> real \<Rightarrow> real \<Rightarrow> real \<Rightarrow> real \<Rightarrow> real \<Rightarrow> real \<Rightarrow> real \<Rightarrow> Options \<Rightarrow> world
   \<Rightarrow> py_error + (Op list \<times> (real \<times> real)) \<times> world" where
  "arcToCubics current rx ry xrot laf swf ex ey opts w =
     (case ellipticalArcToBezier (fst current) (snd current) ex ey rx ry
             (radians (py_mod xrot 360)) laf swf of
        Inl e \<Rightarrow> Inl e
      | Inr beziers \<Rightarrow>
          (case arcToCubics_loop beziers current opts w of
             Inl e \<Rightarrow> Inl e
           | Inr (ops, w') \<Rightarrow> Inr ((ops, (ex, ey)), w')))"

fun singleArc_loop :: "real list list \<Rightarrow> real \<times> real \<Rightarrow> py_error + Op list" where
  "singleArc_loop [] last_pt = Inr []"
| "singleArc_loop (c # beziers) last_pt =
     (case c of
        [cx1, cy1, cx2, cy2, x3, y3] \<Rightarrow>
          (case singleArc_loop beziers (x3, y3) of
             Inl e \<Rightarrow> Inl e
           | Inr rest \<Rightarrow>
               Inr ([Op ''move'' [fst last_pt, snd last_pt],
                     Op ''bcurveTo'' [cx1, cy1, cx2, cy2, x3, y3]] @ rest))
      | _ \<Rightarrow> Inl ValueError)"

definition singleArc ::
  "real \<times> real \<Rightarrow> real \<Rightarrow> real \<Rightarrow> real \<Rightarrow> real \<Rightarrow> real \<Rightarrow> real \<Rightarrow> real
   \<Rightarrow> py_error + Op list \<times> (real \<times> real)" where
  "singleArc cur rx ry xrot laf swf ex ey =
     (case ellipticalArcToBezier (fst cur) (snd cur) ex ey rx ry
             (radians (py_mod xrot 360)) laf swf of
        Inl e \<Rightarrow> Inl e
      | Inr beziers \<Rightarrow>
          (case singleArc_loop beziers cur of
             Inl e \<Rightarrow> Inl e
           | Inr ops \<Rightarrow> Inr (ops, (ex, ey))))"

section \<open>Sketching a path (rough/renderer.py)\<close>

definition quadToCubic ::
  "real \<Rightarrow> real \<Rightarrow> real \<Rightarrow> real \<Rightarrow> real \<times> real \<Rightarrow> Options \<Rightarrow> world \<Rightarrow> Op list \<times> world" where
  "quadToCubic qx qy x y current opts w =
     (let sx = fst current; sy = snd current;
          c1x = sx + (2 / 3) * (qx - sx); c1y = sy + (2 / 3) * (qy - sy);
          c2x = x + (2 / 3) * (qx - x); c2y = y + (2 / 3) * (qy - y)
      in cubicBezierOps c1x c1y c2x c2y x y (sx, sy) opts w)"

definition singleCubic :: "real \<times> real \<Rightarrow> real \<Rightarrow> real \<Rightarrow> real \<Rightarrow> real \<Rightarrow> real \<Rightarrow> real \<Rightarrow> Op list" where
  "singleCubic cur cx1 cy1 cx2 cy2 x3 y3 =
     [Op ''move'' [fst cur, snd cur], Op ''bcurveTo'' [cx1, cy1, cx2, cy2, x3, y3]]"

definition singleQuadratic :: "real \<times> real \<Rightarrow> real \<Rightarrow> real \<Rightarrow> real \<Rightarrow> real \<Rightarrow> Op list" where
  "singleQuadratic cur qx qy x3 y3 =
     (let sx = fst cur; sy = snd cur;
          c1x = sx + (2 / 3) * (qx - sx); c1y = sy + (2 / 3) * (qy - sy);
          c2x = x3 + (2 / 3) * (qx - x3); c2y = y3 + (2 / 3) * (qy - y3)
      in [Op ''move'' [sx, sy], Op ''bcurveTo'' [c1x, c1y, c2x, c2y, x3, y3]])"

text \<open>The state of the loop of \<open>svgPath\<close> over the absolute segments.\<close>

record path_state =
  path_ops :: "Op list"
  path_current :: "real \<times> real"
  path_first :: "real \<times> real"

text \<open>A straight piece to \<open>(x, y)\<close>: one \<open>lineTo\<close> without multi-stroke, a double line
  from the current point otherwise.\<close>

definition path_line_to ::
  "real \<Rightarrow> real \<Rightarrow> Options \<Rightarrow> path_state \<Rightarrow> world \<Rightarrow> Op list \<times> world" where
  "path_line_to x y opts st w =
     (if truthy (disableMultiStroke opts) then ([Op ''lineTo'' [x, y]], w)
      else doubleLine (fst (path_current st)) (snd (path_current st)) x y opts False w)"

definition svgPath_step ::
  "Options \<Rightarrow> string \<times> real list \<Rightarrow> path_state \<Rightarrow> world \<Rightarrow> py_error + path_state \<times> world" where
  "svgPath_step opts seg st w =
     (let cmd = fst seg; vals = snd seg
      in if cmd = ''M'' then
           (case vals of
              x # y # _ \<Rightarrow>
                Inr (st\<lparr>path_current := (x, y), path_first := (x, y),
                        path_ops := path_ops st @ [Op ''move'' [x, y]]\<rparr>, w)
            | _ \<Rightarrow> Inl IndexError)
         else if cmd = ''L'' then
           (case vals of
              x # y # _ \<Rightarrow>
                (case path_line_to x y opts st w of (ops, w') \<Rightarrow>
                   Inr (st\<lparr>path_ops := path_ops st @ ops, path_current := (x, y)\<rparr>, w'))
            | _ \<Rightarrow> Inl IndexError)
         else if cmd = ''H'' then
           (case vals of
              vx # _ \<Rightarrow>
                (case path_line_to vx (snd (path_current st)) opts st w of (ops, w') \<Rightarrow>
                   Inr (st\<lparr>path_ops := path_ops st @ ops,
                           path_current := (vx, snd (path_current st))\<rparr>, w'))
            | _ \<Rightarrow> Inl IndexError)
         else if cmd = ''V'' then
           (case vals of
              vy # _ \<Rightarrow>
                (case path_line_to (fst (path_current st)) vy opts st w of (ops, w') \<Rightarrow>
                   Inr (st\<lparr>path_ops := path_ops st @ ops,
                           path_current := (fst (path_current st), vy)\<rparr>, w'))
            | _ \<Rightarrow> Inl IndexError)
         else if cmd = ''C'' then
           (case vals of
              [cx1, cy1, cx2, cy2, x3, y3] \<Rightarrow>
                (case (if truthy (disableMultiStroke opts)
                       then (singleCubic (path_current st) cx1 cy1 cx2 cy2 x3 y3, w)
                       else cubicBezierOps cx1 cy1 cx2 cy2 x3 y3 (path_current st) opts w) of
                   (ops, w') \<Rightarrow>
                     Inr (st\<lparr>path_ops := path_ops st @ ops, path_current := (x3, y3)\<rparr>, w'))
            | _ \<Rightarrow> Inl ValueError)
         else if cmd = ''Q'' then
           (case vals of
              [qx, qy, x3, y3] \<Rightarrow>
                (case (if truthy (disableMultiStroke opts)
                       then (singleQuadratic (path_current st) qx qy x3 y3, w)
                       else quadToCubic qx qy x3 y3 (path_current st) opts w) of
                   (ops, w') \<Rightarrow>
                     Inr (st\<lparr>path_ops := path_ops st @ ops, path_current := (x3, y3)\<rparr>, w'))
            | _ \<Rightarrow> Inl ValueError)
         else if cmd = ''A'' then
           (case vals of
              [rx, ry, xrot, laf, swf, ex, ey] \<Rightarrow>
                (case (if truthy (disableMultiStroke opts)
                       then (case singleArc (path_current st) rx ry xrot laf swf ex ey of
                               Inl e \<Rightarrow> Inl e | Inr r \<Rightarrow> Inr (r, w))
                       else arcToCubics (path_current st) rx ry xrot laf swf ex ey opts w) of
                   Inl e \<Rightarrow> Inl e
                 | Inr ((arcops, newp), w') \<Rightarrow>
                     Inr (st\<lparr>path_ops := path_ops st @ arcops, path_current := newp\<rparr>, w'))
            | _ \<Rightarrow> Inl ValueError)
         else if cmd = ''Z'' then
           (case path_line_to (fst (path_first st)) (snd (path_first st)) opts st w of (ops, w') \<Rightarrow>
              Inr (st\<lparr>path_ops := path_ops st @ ops, path_current := path_first st\<rparr>, w'))
         else Inr (st, w))"

fun svgPath_loop ::
  "Options \<Rightarrow> (string \<times> real list) list \<Rightarrow> path_state \<Rightarrow> world \<Rightarrow> py_error + path_state \<times> world" where
  "svgPath_loop opts [] st w = Inr (st, w)"
| "svgPath_loop opts (seg # segs) st w =
     (case svgPath_step opts seg st w of
        Inl e \<Rightarrow> Inl e
      | Inr (st', w') \<Rightarrow> svgPath_loop opts segs st' w')"

definition svgPath ::
  "(string \<Rightarrow> real option) \<Rightarrow> string \<Rightarrow> Options \<Rightarrow> world \<Rightarrow> py_error + OpSet \<times> world" where
  "svgPath float path opts w =
     (let p = strip path
      in if p = [] then Inr (\<lparr>opset_type = ''path'', opset_ops = []\<rparr>, w)
         else
           (case parsePathCommands float p of
              Inl e \<Rightarrow> Inl e
            | Inr segs \<Rightarrow>
                (case svgPath_loop opts (toAbsolute segs)
                        \<lparr>path_ops = [], path_current = (0, 0), path_first = (0, 0)\<rparr> w of
                   Inl e \<Rightarrow> Inl e
                 | Inr (st, w') \<Rightarrow> Inr (\<lparr>opset_type = ''path'', opset_ops = path_ops st\<rparr>, w'))))"

text \<open>A stand-in for \<open>float\<close> on the one token the example needs.\<close>

definition float_one :: "string \<Rightarrow> real option" where
  "float_one t = (if t = ''1'' then Some 1 else None)"

section \<open>Dots fill (rough/geometry.py, rough/fillers/dot_filler.py)\<close>

definition line_length :: "(real \<times> real) \<times> (real \<times> real) \<Rightarrow> real" where
  "line_length lin =
     sqrt ((fst (fst lin) - fst (snd lin)) ^ 2 + (snd (fst lin) - snd (snd lin)) ^ 2)"

text \<open>The weight \<open>_dotsOnLines\<close> gives to \<open>helper.ellipse\<close> as width and height.\<close>

definition dots_fweight :: "Options \<Rightarrow> real" where
  "dots_fweight opts =
     (case fillWeight opts of
        Some f \<Rightarrow> (if f \<ge> 0 then f else or_default (strokeWidth opts) 2 * 0.5)
      | None \<Rightarrow> or_default (strokeWidth opts) 2 * 0.5)"

text \<open>\<open>count = int(math.ceil(length / gap)) - 1\<close>, not below zero.\<close>

definition dots_count :: "real \<Rightarrow> (real \<times> real) \<times> (real \<times> real) \<Rightarrow> nat" where
  "dots_count gap lin =
     (let count = \<lceil>line_length lin / gap\<rceil> - 1 in if count < 0 then 0 else nat count)"

text \<open>
  The loop \<open>for i in range(count)\<close>: \<open>i\<close> is the index, \<open>n\<close> the number of passes left.
  The two offsets come from \<open>random.random()\<close>, the system generator.  The helper is the
  \<open>RenderHelper\<close> the filler was built with; its \<open>ellipse\<close> is the parameter \<open>ell\<close>.
\<close>

fun dots_loop ::
  "(real \<Rightarrow> real \<Rightarrow> real \<Rightarrow> real \<Rightarrow> Options \<Rightarrow> world \<Rightarrow> Op list \<times> world)
   \<Rightarrow> Options \<Rightarrow> real \<Rightarrow> real \<Rightarrow> real \<Rightarrow> real \<Rightarrow> nat \<Rightarrow> nat \<Rightarrow> world \<Rightarrow> Op list \<times> world" where
  "dots_loop ell opts x minY offset gap i 0 w = ([], w)"
| "dots_loop ell opts x minY offset gap i (Suc n) w =
     (let ro = gap / 4;
          y = minY + offset + real i * gap
      in (case random_random w of (r1, w1) \<Rightarrow>
         (case random_random w1 of (r2, w2) \<Rightarrow>
            (let cx = (x - ro) + r1 * (2 * ro);
                 cy = (y - ro) + r2 * (2 * ro)
             in (case ell cx cy (dots_fweight opts) (dots_fweight opts) opts w2 of (ops, w3) \<Rightarrow>
                (case dots_loop ell opts x minY offset gap (Suc i) n w3 of (rest, w4) \<Rightarrow>
                   (ops @ rest, w4)))))))"

text \<open>The body of the loop over the lines, for one line.\<close>

definition dotsOnLine ::
  "(real \<Rightarrow> real \<Rightarrow> real \<Rightarrow> real \<Rightarrow> Options \<Rightarrow> world \<Rightarrow> Op list \<times> world)
   \<Rightarrow> (real \<times> real) \<times> (real \<times> real) \<Rightarrow> Options \<Rightarrow> world \<Rightarrow> Op list \<times> world" where
  "dotsOnLine ell lin opts w =
     (let gap = hachure_gap opts;
          len = line_length lin;
          count = dots_count gap lin;
          offset = len - real count * gap;
          x = ((fst (fst lin) + fst (snd lin)) * 0.5) - (gap * 0.25);
          minY = min (snd (fst lin)) (snd (snd lin))
      in dots_loop ell opts x minY offset gap 0 count w)"

fun dotsOnLines_loop ::
  "(real \<Rightarrow> real \<Rightarrow> real \<Rightarrow> real \<Rightarrow> Options \<Rightarrow> world \<Rightarrow> Op list \<times> world)
   \<Rightarrow> ((real \<times> real) \<times> (real \<times> real)) list \<Rightarrow> Options \<Rightarrow> world \<Rightarrow> Op list \<times> world" where
  "dotsOnLines_loop ell [] opts w = ([], w)"
| "dotsOnLines_loop ell (lin # lines) opts w =
     (case dotsOnLine ell lin opts w of (ops, w1) \<Rightarrow>
        (case dotsOnLines_loop ell lines opts w1 of (rest, w2) \<Rightarrow> (ops @ rest, w2)))"

definition dotsOnLines ::
  "(real \<Rightarrow> real \<Rightarrow> real \<Rightarrow> real \<Rightarrow> Options \<Rightarrow> world \<Rightarrow> Op list \<times> world)
   \<Rightarrow> ((real \<times> real) \<times> (real \<times> real)) list \<Rightarrow> Options \<Rightarrow> world \<Rightarrow> OpSet \<times> world" where
  "dotsOnLines ell lines opts w =
     (case dotsOnLines_loop ell lines opts w of (ops, w') \<Rightarrow>
        (\<lparr>opset_type = ''fillSketch'', opset_ops = ops\<rparr>, w'))"

text \<open>\<open>DotFiller.fillPolygons\<close>: the hachure lines of a copy of the options whose
  \<open>hachureAngle\<close> is 0, then the dots, with the options themselves.\<close>

definition DotFiller_fillPolygons ::
  "(real \<Rightarrow> real \<Rightarrow> real \<Rightarrow> real \<Rightarrow> Options \<Rightarrow> world \<Rightarrow> Op list \<times> world)
   \<Rightarrow> nat \<Rightarrow> (real \<times> real) list list \<Rightarrow> Options \<Rightarrow> world \<Rightarrow> (OpSet \<times> world) option" where
  "DotFiller_fillPolygons ell fuel polygonList opts w =
     (let temp = opts\<lparr>hachureAngle := Some 0\<rparr>
      in (case polygon_hachure_lines fuel polygonList temp of
            None \<Rightarrow> None
          | Some lines \<Rightarrow> Some (dotsOnLines ell lines opts w)))"

text \<open>A helper whose \<open>ellipse\<close> records the arguments it is called with.\<close>

definition recording_ellipse ::
  "real \<Rightarrow> real \<Rightarrow> real \<Rightarrow> real \<Rightarrow> Options \<Rightarrow> world \<Rightarrow> Op list \<times> world" where
  "recording_ellipse cx cy width height opts w = ([Op ''ellipse'' [cx, cy, width, height]], w)"

section \<open>Options for level scan lines\<close>

text \<open>The options resolved from \<open>Options(seed=1, hachureAngle=-90, hachureGap=g)\<close>: the
  hachure runs along the abscissa and the rotation is the identity.\<close>

definition level_hachure_options :: "real \<Rightarrow> Options" where
  "level_hachure_options g =
     RoughGenerator_o (RoughGenerator_defaultOptions None)
       (Some (Options_init\<lparr>seed := 1, hachureAngle := Some (- 90), hachureGap := Some g\<rparr>))"

section \<open>The seeded random source\<close>

lemma lcg_nonzero:
  fixes s :: int
  assumes "s mod 2147483647 \<noteq> 0"
  shows "(s * 48271) mod 2147483647 \<noteq> 0"
proof
  assume "(s * 48271) mod 2147483647 = 0"
  then have "(2147483647::int) dvd s * 48271" by presburger
  then have "(2147483647::int) dvd (s * 48271) * 1899818559" by (rule dvd_mult2)
  moreover have "(s * 48271) * 1899818559 = s + 2147483647 * (42704 * s)" by simp
  ultimately have "(2147483647::int) dvd s + 2147483647 * (42704 * s)" by simp
  then have "(2147483647::int) dvd s"
    using dvd_add_times_triv_right_iff[of "2147483647::int" s "42704 * s"]
    by (simp add: mult.commute)
  then show False using assms by presburger
qed

lemma lcg_step_range:
  fixes s :: int
  assumes "s mod 2147483647 \<noteq> 0"
  shows "0 < (s * 48271) mod 2147483647 \<and> (s * 48271) mod 2147483647 < 2147483647"
proof -
  have "0 \<le> (s * 48271) mod 2147483647" by simp
  moreover have "(s * 48271) mod 2147483647 < 2147483647" by simp
  ultimately show ?thesis using lcg_nonzero[OF assms] by linarith
qed

lemma spec_lcg_shift:
  "spec_lcg ((s * 48271) mod 2147483647) n = spec_lcg s (Suc n)"
  by (induction n) simp_all

lemma spec_lcg_nonzero:
  "s mod 2147483647 \<noteq> 0 \<Longrightarrow> spec_lcg s n mod 2147483647 \<noteq> 0"
proof (induction n)
  case 0
  then show ?case by simp
next
  case (Suc n)
  then have "(spec_lcg s n * 48271) mod 2147483647 \<noteq> 0" by (simp add: lcg_nonzero)
  then show ?case by simp
qed

lemma spec_lcg_range:
  assumes "s mod 2147483647 \<noteq> 0"
  shows "0 < spec_lcg s (Suc n) \<and> spec_lcg s (Suc n) < 2147483647"
  using lcg_step_range[OF spec_lcg_nonzero[OF assms, of n]] by simp

lemma Random_next_seeded:
  assumes "st mod 2147483647 \<noteq> 0"
  shows "Random_next st w =
    (real_of_int ((st * 48271) mod 2147483647) / 2147483647, (st * 48271) mod 2147483647, w)"
proof -
  from assms have "st \<noteq> 0" by auto
  then show ?thesis by (simp add: Random_next_def Let_def)
qed

lemma Random_calls_seeded:
  "st mod 2147483647 \<noteq> 0 \<Longrightarrow>
   Random_calls n st w =
     (map (\<lambda>i. real_of_int (spec_lcg st (Suc i)) / 2147483647) [0..<n], spec_lcg st n, w)"
proof (induction n arbitrary: st)
  case 0
  then show ?case by simp
next
  case (Suc n)
  let ?st' = "(st * 48271) mod 2147483647"
  have nz: "?st' mod 2147483647 \<noteq> 0" using lcg_nonzero[OF Suc.prems] by simp
  have shift: "\<And>i. spec_lcg ?st' i = spec_lcg st (Suc i)" by (rule spec_lcg_shift)
  have "Random_calls (Suc n) st w =
      (real_of_int ?st' / 2147483647 #
         map (\<lambda>i. real_of_int (spec_lcg ?st' (Suc i)) / 2147483647) [0..<n],
       spec_lcg ?st' n, w)"
    using Suc.IH[OF nz] by (simp add: Random_next_seeded[OF Suc.prems])
  also have "\<dots> =
      (map (\<lambda>i. real_of_int (spec_lcg st (Suc i)) / 2147483647) [0..<Suc n],
       spec_lcg st (Suc n), w)"
    unfolding shift by (simp add: map_upt_Suc del: upt_Suc spec_lcg.simps(2)) simp
  finally show ?case .
qed

text \<open>
  C2.  For a seed \<open>s\<close> with \<open>0 < s < 2\<^sup>3\<^sup>1 - 1\<close>, the \<open>k\<close>-th call of \<open>next\<close>
  (\<open>1 \<le> k \<le> n\<close>, among \<open>n\<close> calls) returns \<open>s\<^sub>k / (2\<^sup>3\<^sup>1 - 1)\<close> for the recurrence
  \<open>s\<^sub>0 = s\<close>, \<open>s\<^sub>n\<^sub>+\<^sub>1 = (s\<^sub>n * 48271) mod (2\<^sup>3\<^sup>1 - 1)\<close>, and that value lies in
  \<open>[0, 1)\<close>.  The system generator is never consulted: the world is unchanged.
\<close>

theorem Random_next_recurrence:
  assumes "0 < s" and "s < 2 ^ 31 - 1" and "1 \<le> k" and "k \<le> n"
  shows "fst (Random_calls n s w) ! (k - 1) = real_of_int (spec_lcg s k) / (2 ^ 31 - 1)
       \<and> 0 \<le> fst (Random_calls n s w) ! (k - 1)
       \<and> fst (Random_calls n s w) ! (k - 1) < 1
       \<and> snd (snd (Random_calls n s w)) = w"
proof -
  from assms(1,2) have nz: "s mod 2147483647 \<noteq> 0" by simp
  from assms(3) obtain j where k: "k = Suc j" by (cases k) auto
  with assms(4) have j: "j < n" by simp
  have v: "fst (Random_calls n s w) ! (k - 1) = real_of_int (spec_lcg s k) / 2147483647"
    using j by (simp add: Random_calls_seeded[OF nz] k del: spec_lcg.simps(2))
  have r: "0 < spec_lcg s k \<and> spec_lcg s k < 2147483647"
    unfolding k by (rule spec_lcg_range[OF nz])
  from r have "0 \<le> real_of_int (spec_lcg s k) / 2147483647" by simp
  moreover from r have "real_of_int (spec_lcg s k) / 2147483647 < 1" by simp
  moreover have "snd (snd (Random_calls n s w)) = w"
    by (simp add: Random_calls_seeded[OF nz])
  ultimately show ?thesis using v by simp
qed

theorem Random_next_recurrence_witness:
  "(0::int) < 1 \<and> (1::int) < 2 ^ 31 - 1 \<and> (1::nat) \<le> 2 \<and> (2::nat) \<le> 3
   \<and> fst (Random_calls 3 1 \<lparr>randgen = None, sys_random = (\<lambda>_. 0), sys_used = 0\<rparr>) ! (2 - 1)
       = 182605794 / 2147483647
   \<and> fst (Random_calls 3 1 \<lparr>randgen = None, sys_random = (\<lambda>_. 0), sys_used = 0\<rparr>) ! (2 - 1) < 1"
proof -
  have "spec_lcg 1 (Suc (Suc 0)) = 182605794" by simp
  then have "spec_lcg 1 2 = 182605794" by (simp only: numeral_2_eq_2)
  then show ?thesis
    using Random_next_recurrence
      [of 1 2 3 "\<lparr>randgen = None, sys_random = (\<lambda>_. 0), sys_used = 0\<rparr>"]
    by simp
qed

section \<open>Options resolution\<close>

lemma default_fill_after_default_stroke:
  assumes "fill ro \<in> set [None, Some [], Some ''none'']"
      and "stroke ro = None \<or> stroke ro = Some ''none''"
  shows "visibility_rules ro = (hide_zero_width ro)\<lparr>stroke := Some ''#000''\<rparr>"
proof -
  let ?h = "hide_zero_width ro"
  have f: "fill ?h = fill ro" by (simp add: hide_zero_width_def)
  have s: "stroke ?h = None \<or> stroke ?h = Some ''none''"
    using assms(2) by (auto simp: hide_zero_width_def)
  have "default_stroke ?h = ?h\<lparr>stroke := Some ''#000''\<rparr>"
    using assms(1) s f by (simp add: default_stroke_def)
  then show ?thesis by (simp add: visibility_rules_def default_fill_def)
qed

lemma resolved_fill_stays_empty:
  assumes "fill (merged_options d opts) \<in> set [None, Some [], Some ''none'']"
      and "stroke (merged_options d opts) = None \<or> stroke (merged_options d opts) = Some ''none''"
  shows "fill (RoughGenerator_o d opts) = fill (merged_options d opts)
       \<and> stroke (RoughGenerator_o d opts) = Some ''#000''"
  unfolding RoughGenerator_o_def default_fill_after_default_stroke[OF assms]
  by (simp add: hide_zero_width_def)

text \<open>
  C6.  The library's own comment on the third visibility rule promises a default fill
  colour when the fill is empty and the stroke is \<open>none\<close>.  For
  \<open>Options(stroke="none")\<close> on a generator without configuration the merged fill is
  absent and the merged stroke is \<open>none\<close>, yet the resolved fill is still absent:
  the second rule has already replaced the stroke by \<open>#000\<close>.
\<close>

theorem resolve_stroke_none_leaves_fill_empty:
  "fill (merged_options (RoughGenerator_defaultOptions None)
           (Some (Options_init\<lparr>stroke := Some ''none''\<rparr>))) = None
   \<and> stroke (merged_options (RoughGenerator_defaultOptions None)
           (Some (Options_init\<lparr>stroke := Some ''none''\<rparr>))) = Some ''none''
   \<and> fill (RoughGenerator_o (RoughGenerator_defaultOptions None)
           (Some (Options_init\<lparr>stroke := Some ''none''\<rparr>))) = None
   \<and> stroke (RoughGenerator_o (RoughGenerator_defaultOptions None)
           (Some (Options_init\<lparr>stroke := Some ''none''\<rparr>))) = Some ''#000''"
  by (simp add: RoughGenerator_o_def merged_options_def RoughGenerator_defaultOptions_def
      ResolvedOptions_init_def Options_init_def copy_set_fields_def pick_def
      visibility_rules_def default_fill_def default_stroke_def hide_zero_width_def)

section \<open>Random offsets\<close>

lemma Random_next_range:
  assumes "unit_source w"
  shows "0 \<le> fst (Random_next st w) \<and> fst (Random_next st w) < 1
       \<and> sys_random (snd (snd (Random_next st w))) = sys_random w"
proof (cases "st = 0")
  case True
  then show ?thesis using assms by (simp add: Random_next_def random_random_def unit_source_def)
next
  case False
  have "0 \<le> (st * 48271) mod 2147483647" "(st * 48271) mod 2147483647 < 2147483647" by simp_all
  then have "0 \<le> real_of_int ((st * 48271) mod 2147483647) / 2147483647"
    "real_of_int ((st * 48271) mod 2147483647) / 2147483647 < 1" by simp_all
  then show ?thesis using False by (simp add: Random_next_def Let_def)
qed

lemma randomFloat_range:
  assumes "unit_source w"
  shows "0 \<le> fst (randomFloat opts w)" "fst (randomFloat opts w) < 1"
        "unit_source (snd (randomFloat opts w))"
  using Random_next_range[OF assms, of "case randgen w of None \<Rightarrow> seed opts | Some s \<Rightarrow> s"] assms
  by (auto simp: randomFloat_def Let_def unit_source_def split: prod.splits)

lemma offsetRange_eq:
  "offsetRange minv maxv opts gain w =
     (or_default (roughness opts) 1 * gain * (fst (randomFloat opts w) * (maxv - minv) + minv),
      snd (randomFloat opts w))"
  by (simp add: offsetRange_def Let_def split: prod.splits)

lemma offsetOpt_bound:
  assumes "unit_source w"
  shows "\<bar>fst (offsetOpt x opts gain w)\<bar> \<le> \<bar>or_default (roughness opts) 1 * gain * x\<bar>"
    and "unit_source (snd (offsetOpt x opts gain w))"
proof -
  let ?f = "fst (randomFloat opts w)"
  let ?r = "or_default (roughness opts) 1"
  have f: "0 \<le> ?f" "?f < 1" using randomFloat_range[OF assms] by auto
  have "fst (offsetOpt x opts gain w) = (?r * gain * x) * (2 * ?f - 1)"
    by (simp add: offsetOpt_def offsetRange_eq algebra_simps)
  moreover have "\<bar>2 * ?f - 1\<bar> \<le> 1" using f by (simp add: abs_le_iff)
  ultimately have "\<bar>fst (offsetOpt x opts gain w)\<bar> \<le> \<bar>?r * gain * x\<bar> * 1"
    by (simp only: abs_mult[of "?r * gain * x" "2 * ?f - 1"] mult_left_mono abs_ge_zero)
  then show "\<bar>fst (offsetOpt x opts gain w)\<bar> \<le> \<bar>?r * gain * x\<bar>" by simp
  show "unit_source (snd (offsetOpt x opts gain w))"
    using randomFloat_range(3)[OF assms] by (simp add: offsetOpt_def offsetRange_eq)
qed

lemma roughnessGain_le_spec: "roughnessGain len \<le> spec_gain len"
proof -
  have "200 \<le> len \<Longrightarrow> len < 500 \<Longrightarrow>
        (- 0.0016668) * len + 1.233334 \<le> 1 - 0.6 * (len - 200) / 300"
    by (simp add: field_simps)
  moreover have "len = 500 \<Longrightarrow> (- 0.0016668) * len + 1.233334 \<le> (0.4::real)" by simp
  ultimately show ?thesis
    unfolding roughnessGain_def spec_gain_def by (cases "len < 500"; cases "len = 500"; force)
qed

lemma roughnessGain_pos: "0 < roughnessGain len"
  by (simp add: roughnessGain_def)

lemma line_moff_le:
  assumes "0 \<le> or_default (maxRandomnessOffset opts) 2" "0 \<le> q"
  shows "0 \<le> line_moff opts q" "line_moff opts q \<le> or_default (maxRandomnessOffset opts) 2"
proof -
  let ?M = "or_default (maxRandomnessOffset opts) 2"
  show "0 \<le> line_moff opts q" using assms by (simp add: line_moff_def Let_def)
  show "line_moff opts q \<le> ?M"
  proof (cases "?M * ?M * 100 > q")
    case True
    then have "q < (10 * ?M)\<^sup>2" by (simp add: power2_eq_square)
    then have "sqrt q < 10 * ?M" using assms by (simp add: real_less_lsqrt)
    then show ?thesis using True by (simp add: line_moff_def Let_def)
  next
    case False
    then show ?thesis by (simp add: line_moff_def Let_def)
  qed
qed

section \<open>Perturbation bound of a line\<close>

lemma unless_preserved_bound:
  assumes "unit_source w"
     and "\<And>w. unit_source w \<Longrightarrow> \<bar>fst (rnd w)\<bar> \<le> b \<and> unit_source (snd (rnd w))"
     and "0 \<le> b"
  shows "\<bar>fst (unless_preserved opts rnd w)\<bar> \<le> b \<and> unit_source (snd (unless_preserved opts rnd w))"
  using assms by (simp add: unless_preserved_def)

lemma run_all_Cons:
  "run_all (f # fs) w =
     (fst (f w) # fst (run_all fs (snd (f w))), snd (run_all fs (snd (f w))))"
  by (simp split: prod.splits)

lemma run_all_bound:
  assumes "\<forall>f \<in> set fs. \<forall>v. unit_source v \<longrightarrow> \<bar>fst (f v)\<bar> \<le> b \<and> unit_source (snd (f v))"
      and "unit_source w"
  shows "length (fst (run_all fs w)) = length fs
       \<and> (\<forall>v \<in> set (fst (run_all fs w)). \<bar>v\<bar> \<le> b)
       \<and> unit_source (snd (run_all fs w))"
  using assms
proof (induction fs arbitrary: w)
  case Nil
  then show ?case by simp
next
  case (Cons f fs)
  have h: "\<bar>fst (f w)\<bar> \<le> b \<and> unit_source (snd (f w))" using Cons.prems by simp
  have "length (fst (run_all fs (snd (f w)))) = length fs
       \<and> (\<forall>v \<in> set (fst (run_all fs (snd (f w)))). \<bar>v\<bar> \<le> b)
       \<and> unit_source (snd (run_all fs (snd (f w))))"
    using Cons.IH[of "snd (f w)"] Cons.prems(1) h by simp
  then show ?case using h by (simp add: run_all_Cons del: run_all.simps)
qed

lemma list2: "length xs = 2 \<Longrightarrow> \<exists>a b. xs = [a, b]"
  by (auto simp: length_Suc_conv numeral_2_eq_2)

lemma list6: "length xs = 6 \<Longrightarrow> \<exists>a b c d e f. xs = [a, b, c, d, e, f]"
  by (auto simp: length_Suc_conv eval_nat_numeral)

text \<open>
  C3 (amended).  With roughness and \<open>maxRandomnessOffset\<close> not negative and a system
  generator that returns values in \<open>[0, 1)\<close>, a pass of \<open>lineOps\<close> is a \<open>move\<close> and
  a \<open>bcurveTo\<close>.  The move point and the end point of the curve lie within
  \<open>maxRandomnessOffset * roughness * gain\<close> of the input end points, for the gain the
  specification documents.  A control point lies within that bound, enlarged by the
  factor \<open>1 + |bowing| * |d| / 200\<close>, of the point of the ideal segment at the
  fraction \<open>dp\<close> (first control point) or \<open>2 * dp\<close> (second), where
  \<open>0.2 \<le> dp \<le> 0.4\<close> and \<open>d\<close> is the extent of the segment in the other axis.
\<close>

theorem lineOps_perturbation_bound:
  fixes x1 y1 x2 y2 :: real
  assumes src: "unit_source w"
      and M: "0 \<le> or_default (maxRandomnessOffset opts) 2"
      and R: "0 \<le> or_default (roughness opts) 1"
  shows "\<exists>mx my c1x c1y c2x c2y ex ey dp.
      fst (lineOps x1 y1 x2 y2 opts True overlay w)
        = [Op ''move'' [mx, my], Op ''bcurveTo'' [c1x, c1y, c2x, c2y, ex, ey]]
    \<and> \<bar>mx - x1\<bar> \<le> or_default (maxRandomnessOffset opts) 2 * or_default (roughness opts) 1
                      * spec_gain (sqrt ((x1 - x2) ^ 2 + (y1 - y2) ^ 2))
    \<and> \<bar>my - y1\<bar> \<le> or_default (maxRandomnessOffset opts) 2 * or_default (roughness opts) 1
                      * spec_gain (sqrt ((x1 - x2) ^ 2 + (y1 - y2) ^ 2))
    \<and> \<bar>ex - x2\<bar> \<le> or_default (maxRandomnessOffset opts) 2 * or_default (roughness opts) 1
                      * spec_gain (sqrt ((x1 - x2) ^ 2 + (y1 - y2) ^ 2))
    \<and> \<bar>ey - y2\<bar> \<le> or_default (maxRandomnessOffset opts) 2 * or_default (roughness opts) 1
                      * spec_gain (sqrt ((x1 - x2) ^ 2 + (y1 - y2) ^ 2))
    \<and> 0.2 \<le> dp \<and> dp \<le> 0.4
    \<and> \<bar>c1x - (x1 + (x2 - x1) * dp)\<bar>
          \<le> or_default (maxRandomnessOffset opts) 2 * or_default (roughness opts) 1
              * spec_gain (sqrt ((x1 - x2) ^ 2 + (y1 - y2) ^ 2))
              * (1 + \<bar>or_default (bowing opts) 1\<bar> * \<bar>y2 - y1\<bar> / 200)
    \<and> \<bar>c1y - (y1 + (y2 - y1) * dp)\<bar>
          \<le> or_default (maxRandomnessOffset opts) 2 * or_default (roughness opts) 1
              * spec_gain (sqrt ((x1 - x2) ^ 2 + (y1 - y2) ^ 2))
              * (1 + \<bar>or_default (bowing opts) 1\<bar> * \<bar>x1 - x2\<bar> / 200)
    \<and> \<bar>c2x - (x1 + 2 * (x2 - x1) * dp)\<bar>
          \<le> or_default (maxRandomnessOffset opts) 2 * or_default (roughness opts) 1
              * spec_gain (sqrt ((x1 - x2) ^ 2 + (y1 - y2) ^ 2))
              * (1 + \<bar>or_default (bowing opts) 1\<bar> * \<bar>y2 - y1\<bar> / 200)
    \<and> \<bar>c2y - (y1 + 2 * (y2 - y1) * dp)\<bar>
          \<le> or_default (maxRandomnessOffset opts) 2 * or_default (roughness opts) 1
              * spec_gain (sqrt ((x1 - x2) ^ 2 + (y1 - y2) ^ 2))
              * (1 + \<bar>or_default (bowing opts) 1\<bar> * \<bar>x1 - x2\<bar> / 200)"
proof -
  let ?q = "(x1 - x2) ^ 2 + (y1 - y2) ^ 2"
  let ?gain = "roughnessGain (sqrt ?q)"
  let ?moff = "line_moff opts ?q"
  let ?bowv = "or_default (bowing opts) 1"
  let ?M = "or_default (maxRandomnessOffset opts) 2"
  let ?r = "or_default (roughness opts) 1"
  let ?rnd = "if overlay then offsetOpt (?moff / 2) opts ?gain else offsetOpt ?moff opts ?gain"
  let ?pin = "unless_preserved opts ?rnd"
  define B0 where "B0 = ?r * ?gain * ?M"
  define B where "B = ?M * ?r * spec_gain (sqrt ?q)"
  have q: "0 \<le> ?q" by simp
  have moff: "0 \<le> ?moff" "?moff \<le> ?M" using line_moff_le[OF M q] by auto
  have gain: "0 < ?gain" "?gain \<le> spec_gain (sqrt ?q)"
    by (rule roughnessGain_pos, rule roughnessGain_le_spec)
  have rg: "0 \<le> ?r * ?gain" using R gain by simp
  have B0: "0 \<le> B0" unfolding B0_def using rg M by simp
  have "?r * ?gain * ?M \<le> ?r * spec_gain (sqrt ?q) * ?M"
    using R M gain by (simp add: mult_left_mono mult_right_mono)
  then have B0B: "B0 \<le> B" unfolding B0_def B_def by (simp add: mult.commute mult.left_commute)
  have scale: "\<bar>?r * ?gain * m\<bar> \<le> B0" if "0 \<le> m" "m \<le> ?M" for m
  proof -
    have "0 \<le> ?r * ?gain * m" using rg that by simp
    then have "\<bar>?r * ?gain * m\<bar> = ?r * ?gain * m" by (rule abs_of_nonneg)
    also have "\<dots> \<le> ?r * ?gain * ?M" by (rule mult_left_mono[OF that(2) rg])
    finally show ?thesis unfolding B0_def .
  qed
  have rnd: "\<bar>fst (?rnd v)\<bar> \<le> B0 \<and> unit_source (snd (?rnd v))" if "unit_source v" for v
  proof (cases overlay)
    case True
    have "\<bar>?r * ?gain * (?moff / 2)\<bar> \<le> B0" using moff by (intro scale) simp_all
    then show ?thesis using True offsetOpt_bound[OF that, of "?moff / 2" opts ?gain] by simp
  next
    case False
    have "\<bar>?r * ?gain * ?moff\<bar> \<le> B0" using moff by (intro scale) simp_all
    then show ?thesis using False offsetOpt_bound[OF that, of "?moff" opts ?gain] by simp
  qed
  have pin: "\<bar>fst (?pin v)\<bar> \<le> B0 \<and> unit_source (snd (?pin v))" if "unit_source v" for v
    using rnd[OF that] that B0 by (simp add: unless_preserved_def)
  obtain rf w1 where 1: "randomFloat opts w = (rf, w1)" by (cases "randomFloat opts w")
  obtain mdx w2 where 2: "offsetOpt (?bowv * ?moff * (y2 - y1) / 200) opts ?gain w1 = (mdx, w2)"
    by (cases "offsetOpt (?bowv * ?moff * (y2 - y1) / 200) opts ?gain w1")
  obtain mdy w3 where 3: "offsetOpt (?bowv * ?moff * (x1 - x2) / 200) opts ?gain w2 = (mdy, w3)"
    by (cases "offsetOpt (?bowv * ?moff * (x1 - x2) / 200) opts ?gain w2")
  obtain mv w4 where 4: "run_all [?pin, ?pin] w3 = (mv, w4)"
    by (cases "run_all [?pin, ?pin] w3")
  obtain js w5 where 5: "run_all [?rnd, ?rnd, ?rnd, ?rnd, ?pin, ?pin] w4 = (js, w5)"
    by (cases "run_all [?rnd, ?rnd, ?rnd, ?rnd, ?pin, ?pin] w4")
  define dp where "dp = 0.2 + rf * 0.2"
  have out: "fst (lineOps x1 y1 x2 y2 opts True overlay w) =
      [Op ''move'' (map2 (+) [x1, y1] mv),
       Op ''bcurveTo'' (map2 (+)
         [mdx + x1 + (x2 - x1) * dp, mdy + y1 + (y2 - y1) * dp,
          mdx + x1 + 2 * (x2 - x1) * dp, mdy + y1 + 2 * (y2 - y1) * dp,
          x2, y2] js)]"
    unfolding lineOps_def Let_def dp_def
    by (simp only: 1 2 3 4 5 prod.case if_True fst_conv append.simps)
  have rf: "0 \<le> rf" "rf < 1" and u1: "unit_source w1"
    using randomFloat_range[OF src, of opts] by (simp_all add: 1)
  have dp: "0.2 \<le> dp" "dp \<le> 0.4" using rf by (simp_all add: dp_def)
  have mdx: "\<bar>mdx\<bar> \<le> \<bar>?r * ?gain * (?bowv * ?moff * (y2 - y1) / 200)\<bar>" and u2: "unit_source w2"
    using offsetOpt_bound[OF u1, of "?bowv * ?moff * (y2 - y1) / 200" opts ?gain] by (simp_all add: 2)
  have mdy: "\<bar>mdy\<bar> \<le> \<bar>?r * ?gain * (?bowv * ?moff * (x1 - x2) / 200)\<bar>" and u3: "unit_source w3"
    using offsetOpt_bound[OF u2, of "?bowv * ?moff * (x1 - x2) / 200" opts ?gain] by (simp_all add: 3)
  have bow: "\<bar>?r * ?gain * (?bowv * ?moff * d / 200)\<bar> \<le> B * (\<bar>?bowv\<bar> * \<bar>d\<bar> / 200)" for d
  proof -
    have "?r * ?gain * (?bowv * ?moff * d / 200) = (?r * ?gain * ?moff) * (?bowv * d / 200)"
      by simp
    then have "\<bar>?r * ?gain * (?bowv * ?moff * d / 200)\<bar>
        = \<bar>?r * ?gain * ?moff\<bar> * (\<bar>?bowv\<bar> * \<bar>d\<bar> / 200)"
      by (simp only: abs_mult abs_divide) simp
    also have "\<dots> \<le> B0 * (\<bar>?bowv\<bar> * \<bar>d\<bar> / 200)"
      using scale[OF moff] by (intro mult_right_mono) simp_all
    also have "\<dots> \<le> B * (\<bar>?bowv\<bar> * \<bar>d\<bar> / 200)"
      using B0B by (intro mult_right_mono) simp_all
    finally show ?thesis .
  qed
  have mvb: "length mv = 2 \<and> (\<forall>v \<in> set mv. \<bar>v\<bar> \<le> B0) \<and> unit_source w4"
  proof -
    have "\<forall>f \<in> set [?pin, ?pin]. \<forall>v. unit_source v \<longrightarrow>
            \<bar>fst (f v)\<bar> \<le> B0 \<and> unit_source (snd (f v))"
      using pin by auto
    from run_all_bound[OF this u3, unfolded 4]
    show ?thesis by simp
  qed
  then obtain m1 m2 where mv: "mv = [m1, m2]" using list2 by blast
  have jsb: "length js = 6 \<and> (\<forall>v \<in> set js. \<bar>v\<bar> \<le> B0) \<and> unit_source w5"
  proof -
    have u4: "unit_source w4" using mvb by simp
    have "\<forall>f \<in> set [?rnd, ?rnd, ?rnd, ?rnd, ?pin, ?pin]. \<forall>v. unit_source v \<longrightarrow>
            \<bar>fst (f v)\<bar> \<le> B0 \<and> unit_source (snd (f v))"
      using pin rnd by auto
    from run_all_bound[OF this u4, unfolded 5]
    show ?thesis by simp
  qed
  then obtain j1 j2 j3 j4 j5 j6 where js: "js = [j1, j2, j3, j4, j5, j6]" using list6 by blast
  have mB: "\<bar>m1\<bar> \<le> B" "\<bar>m2\<bar> \<le> B" using mvb B0B by (auto simp: mv)
  have jB: "\<bar>j1\<bar> \<le> B" "\<bar>j2\<bar> \<le> B" "\<bar>j3\<bar> \<le> B" "\<bar>j4\<bar> \<le> B" "\<bar>j5\<bar> \<le> B" "\<bar>j6\<bar> \<le> B"
    using jsb B0B by (auto simp: js)
  have ctl: "\<bar>md + base + j - base\<bar> \<le> B * (1 + \<bar>?bowv\<bar> * \<bar>d\<bar> / 200)"
    if "\<bar>md\<bar> \<le> \<bar>?r * ?gain * (?bowv * ?moff * d / 200)\<bar>" "\<bar>j\<bar> \<le> B" for md base j d
  proof -
    have "\<bar>md + base + j - base\<bar> \<le> \<bar>md\<bar> + \<bar>j\<bar>" by simp
    also have "\<dots> \<le> B * (\<bar>?bowv\<bar> * \<bar>d\<bar> / 200) + B" using that bow[of d] by linarith
    finally show ?thesis by (simp add: algebra_simps)
  qed
  show ?thesis
    apply (rule exI[of _ "x1 + m1"], rule exI[of _ "y1 + m2"])
    apply (rule exI[of _ "mdx + x1 + (x2 - x1) * dp + j1"])
    apply (rule exI[of _ "mdy + y1 + (y2 - y1) * dp + j2"])
    apply (rule exI[of _ "mdx + x1 + 2 * (x2 - x1) * dp + j3"])
    apply (rule exI[of _ "mdy + y1 + 2 * (y2 - y1) * dp + j4"])
    apply (rule exI[of _ "x2 + j5"], rule exI[of _ "y2 + j6"], rule exI[of _ dp])
    unfolding B_def[symmetric]
    using mB jB dp ctl[OF mdx jB(1)] ctl[OF mdy jB(2)] ctl[OF mdx jB(3)] ctl[OF mdy jB(4)]
    by (simp add: out mv js add.commute[of x1] )
qed

lemma seed_options_eval:
  "seed_options s =
     \<lparr>maxRandomnessOffset = Some 2, roughness = Some 1, bowing = Some 2, stroke = Some ''#000'',
      strokeWidth = Some 2, curveFitting = Some 0.95, curveTightness = Some 0.1,
      curveStepCount = Some 9, fill = None, fillStyle = Some ''hachure'', fillWeight = Some 1,
      hachureAngle = Some (- 41), hachureGap = Some 3.5, dashOffset = Some (- 1),
      dashGap = Some (- 1), zigzagOffset = Some (- 1), seed = s,
      disableMultiStroke = Some False, disableMultiStrokeFill = Some False,
      preserveVertices = Some False, fillShapeRoughnessGain = Some 0.8\<rparr>"
  by (simp add: seed_options_def RoughGenerator_o_def merged_options_def
      RoughGenerator_defaultOptions_def ResolvedOptions_init_def Options_init_def
      copy_set_fields_def pick_def visibility_rules_def default_fill_def default_stroke_def
      hide_zero_width_def)

lemmas rand_eval = randomFloat_def Random_next_def random_random_def Let_def offsetOpt_def
      offsetRange_def fresh_world_def zero_source_def half_source_def or_default_def truthy_def
      unless_preserved_def

lemma sqrt_25: "sqrt 25 = 5"
  by (rule real_sqrt_unique) simp_all

lemma sqrt_1000000: "sqrt 1000000 = 1000"
  by (rule real_sqrt_unique) simp_all

theorem lineOps_perturbation_bound_witness:
  "unit_source (fresh_world zero_source)
   \<and> 0 \<le> or_default (maxRandomnessOffset (seed_options 1)) 2
   \<and> 0 \<le> or_default (roughness (seed_options 1)) 1
   \<and> \<bar>op_data (fst (lineOps 0 0 3 4 (seed_options 1) True False (fresh_world zero_source)) ! 0) ! 0 - 0\<bar>
        \<le> 2 * 1 * spec_gain 5"
proof -
  have h1: "unit_source (fresh_world zero_source)"
    by (simp add: unit_source_def fresh_world_def zero_source_def)
  have h2: "0 \<le> or_default (maxRandomnessOffset (seed_options 1)) 2"
    by (simp add: seed_options_eval or_default_def)
  have h3: "0 \<le> or_default (roughness (seed_options 1)) 1"
    by (simp add: seed_options_eval or_default_def)
  from lineOps_perturbation_bound[OF h1 h2 h3, of 0 0 3 4 False]
  obtain mx my c where "fst (lineOps 0 0 3 4 (seed_options 1) True False (fresh_world zero_source))
         = [Op ''move'' [mx, my], c]"
     and "\<bar>mx - 0\<bar> \<le> or_default (maxRandomnessOffset (seed_options 1)) 2
            * or_default (roughness (seed_options 1)) 1 * spec_gain (sqrt ((0 - 3)\<^sup>2 + (0 - 4)\<^sup>2))"
    by blast
  then show ?thesis using h1 h2 h3 by (simp add: seed_options_eval or_default_def sqrt_25)
qed

text \<open>
  C3 as stated fails on a control point.  On the vertical segment from \<open>(0, 0)\<close> to
  \<open>(0, 1000)\<close>, with the default options and seed 1, every ideal position has
  abscissa 0, yet the first control abscissa of the first pass is further from 0 than
  \<open>maxRandomnessOffset * roughness * gain\<close>: the bow displacement is added to it.
\<close>

theorem lineOps_control_point_exceeds_bound:
  "\<bar>op_data (fst (lineOps 0 0 0 1000 (seed_options 1) True False (fresh_world zero_source)) ! 1) ! 0 - 0\<bar>
     > or_default (maxRandomnessOffset (seed_options 1)) 2
       * or_default (roughness (seed_options 1)) 1
       * spec_gain (sqrt ((0 - 0)\<^sup>2 + (0 - 1000)\<^sup>2))"
  by (simp add: seed_options_eval lineOps_def line_moff_def roughnessGain_def spec_gain_def
        rand_eval sqrt_1000000)

section \<open>Determinism\<close>





lemma det_if_fun:
  assumes "c \<Longrightarrow> deterministic opts f" and "\<not> c \<Longrightarrow> deterministic opts g"
  shows "deterministic opts (if c then f else g)"
  using assms by (cases c) simp_all



























section \<open>Preserved vertices\<close>

lemma run_all_preserved:
  "truthy (preserveVertices opts) \<Longrightarrow>
   run_all (replicate n (unless_preserved opts rnd)) w = (replicate n 0, w)"
  by (induction n) (simp_all add: unless_preserved_def)

lemma lineOps_preserved:
  assumes "truthy (preserveVertices opts)"
  shows "\<exists>c1x c1y c2x c2y.
     fst (lineOps x1 y1 x2 y2 opts True overlay w)
       = [Op ''move'' [x1, y1], Op ''bcurveTo'' [c1x, c1y, c2x, c2y, x2, y2]]"
  using assms
  by (simp add: lineOps_def Let_def unless_preserved_def case_prod_beta del: run_all.simps
         add: run_all_Cons)


lemma replicate_6: "replicate 6 x = [x, x, x, x, x, x]"
  by (simp add: eval_nat_numeral)

lemma cubicBezierOps_pass_preserved:
  assumes "truthy (preserveVertices opts)"
  shows "fst (cubicBezierOps_pass i cx1 cy1 cx2 cy2 ex ey (sx, sy) opts w)
       = [Op ''move'' [sx, sy], Op ''bcurveTo'' [cx1, cy1, cx2, cy2, ex, ey]]"
  using assms
  by (simp add: cubicBezierOps_pass_def Let_def case_prod_beta run_all_preserved
        unless_preserved_def replicate_6)

lemma preserve_options_eval:
  "preserve_options s = (seed_options s)\<lparr>preserveVertices := Some True\<rparr>"
  by (simp add: seed_options_eval preserve_options_def RoughGenerator_o_def merged_options_def
      RoughGenerator_defaultOptions_def ResolvedOptions_init_def Options_init_def
      copy_set_fields_def pick_def visibility_rules_def default_fill_def default_stroke_def
      hide_zero_width_def)

text \<open>
  C7 (amended).  With \<open>preserveVertices\<close> set, every pass of a line (and so of each
  side of a polyline, a polygon or a rectangle, which are drawn by \<open>doubleLine\<close>) is
  a \<open>move\<close> to the exact start point and a curve that ends at the exact end point,
  and every pass of a cubic path segment keeps its start, control and end points
  exactly.
\<close>

theorem preserveVertices_pins_line_passes:
  assumes "truthy (preserveVertices opts)"
  shows "(\<exists>a b c d a' b' c' d'.
            fst (doubleLine x1 y1 x2 y2 opts filling w)
              = [Op ''move'' [x1, y1], Op ''bcurveTo'' [a, b, c, d, x2, y2]]
                @ (if (if filling then truthy (disableMultiStrokeFill opts)
                       else truthy (disableMultiStroke opts)) then []
                   else [Op ''move'' [x1, y1], Op ''bcurveTo'' [a', b', c', d', x2, y2]]))
       \<and> fst (cubicBezierOps cx1 cy1 cx2 cy2 ex ey (sx, sy) opts w)
           = [Op ''move'' [sx, sy], Op ''bcurveTo'' [cx1, cy1, cx2, cy2, ex, ey]]
             @ (if truthy (disableMultiStroke opts) then []
                else [Op ''move'' [sx, sy], Op ''bcurveTo'' [cx1, cy1, cx2, cy2, ex, ey]])"
proof -
  obtain a b c d where 1: "fst (lineOps x1 y1 x2 y2 opts True False w)
       = [Op ''move'' [x1, y1], Op ''bcurveTo'' [a, b, c, d, x2, y2]]"
    using lineOps_preserved[OF assms] by blast
  obtain a' b' c' d' where 2:
    "fst (lineOps x1 y1 x2 y2 opts True True (snd (lineOps x1 y1 x2 y2 opts True False w)))
       = [Op ''move'' [x1, y1], Op ''bcurveTo'' [a', b', c', d', x2, y2]]"
    using lineOps_preserved[OF assms] by blast
  have "fst (doubleLine x1 y1 x2 y2 opts filling w)
              = [Op ''move'' [x1, y1], Op ''bcurveTo'' [a, b, c, d, x2, y2]]
                @ (if (if filling then truthy (disableMultiStrokeFill opts)
                       else truthy (disableMultiStroke opts)) then []
                   else [Op ''move'' [x1, y1], Op ''bcurveTo'' [a', b', c', d', x2, y2]])"
    using 1 2 by (simp add: doubleLine_def Let_def case_prod_beta)
  moreover have "fst (cubicBezierOps cx1 cy1 cx2 cy2 ex ey (sx, sy) opts w)
           = [Op ''move'' [sx, sy], Op ''bcurveTo'' [cx1, cy1, cx2, cy2, ex, ey]]
             @ (if truthy (disableMultiStroke opts) then []
                else [Op ''move'' [sx, sy], Op ''bcurveTo'' [cx1, cy1, cx2, cy2, ex, ey]])"
    by (simp add: cubicBezierOps_def case_prod_beta cubicBezierOps_pass_preserved[OF assms])
  ultimately show ?thesis by blast
qed

theorem preserveVertices_pins_line_passes_witness:
  "truthy (preserveVertices (preserve_options 1))
   \<and> take 1 (fst (doubleLine 0 0 3 4 (preserve_options 1) False (fresh_world zero_source)))
       = [Op ''move'' [0, 0]]
   \<and> fst (cubicBezierOps 1 2 3 4 5 6 (7, 8) (preserve_options 1) (fresh_world zero_source))
       = [Op ''move'' [7, 8], Op ''bcurveTo'' [1, 2, 3, 4, 5, 6],
          Op ''move'' [7, 8], Op ''bcurveTo'' [1, 2, 3, 4, 5, 6]]"
proof -
  have h: "truthy (preserveVertices (preserve_options 1))"
    by (simp add: preserve_options_eval truthy_def)
  have m: "\<not> truthy (disableMultiStroke (preserve_options 1))"
    by (simp add: preserve_options_eval seed_options_eval truthy_def)
  from preserveVertices_pins_line_passes[OF h, where ?x1.0 = 0 and ?y1.0 = 0 and ?x2.0 = 3
      and ?y2.0 = 4 and filling = False and w = "fresh_world zero_source"
      and ?cx1.0 = 1 and ?cy1.0 = 2 and ?cx2.0 = 3 and ?cy2.0 = 4 and ex = 5 and ey = 6
      and sx = 7 and sy = 8] h m
  show ?thesis by auto
qed

text \<open>
  C7 as stated fails for a multi-point curve: \<open>curveWithOffset\<close> offsets every point
  and never reads \<open>preserveVertices\<close>.  The curve through \<open>(0, 0)\<close> and \<open>(10, 0)\<close>
  with \<open>preserveVertices\<close> set and seed 1 starts with a move to a point other than
  \<open>(0, 0)\<close>.
\<close>

theorem curve_preserveVertices_moves_first_point:
  "opset_ops (fst (curve [(0, 0), (10, 0)] (preserve_options 1) (fresh_world zero_source))) ! 0
     = Op ''move'' [522367350 / 2147483647, 10091745762 / 10737418235]"
  by (simp add: preserve_options_eval seed_options_eval curve_def curveWithOffset_def curveOps_def
        rand_eval case_prod_beta)

section \<open>Arc angle normalisation\<close>

lemma arc_loop_neg:
  "strt < 0 \<Longrightarrow> arc_normalize_loop strt stp = arc_normalize_loop (strt + pi * 2) (stp + pi * 2)"
  by (subst arc_normalize_loop.simps) simp

lemma arc_loop_nonneg: "0 \<le> strt \<Longrightarrow> arc_normalize_loop strt stp = (strt, stp)"
  by (subst arc_normalize_loop.simps) simp

lemma arc_loop_span:
  "snd (arc_normalize_loop strt stp) - fst (arc_normalize_loop strt stp) = stp - strt"
proof (induction strt stp rule: arc_normalize_loop.induct)
  case (1 strt stp)
  show ?case
  proof (cases "strt < 0")
    case True
    then show ?thesis using 1 by (simp add: arc_loop_neg[OF True])
  next
    case False
    then show ?thesis by (simp add: arc_loop_nonneg)
  qed
qed

lemma arc_loop_result_nonneg: "0 \<le> fst (arc_normalize_loop strt stp)"
proof (induction strt stp rule: arc_normalize_loop.induct)
  case (1 strt stp)
  show ?case
  proof (cases "strt < 0")
    case True
    then show ?thesis using 1 by (simp add: arc_loop_neg[OF True])
  next
    case False
    then show ?thesis by (simp add: arc_loop_nonneg)
  qed
qed

text \<open>
  C8.  The normalisation of \<open>(start + 2\<pi>, stop + 2\<pi>)\<close> has the same angular span
  (\<open>stop - start\<close> after normalisation) as that of \<open>(start, stop)\<close>, and the two
  normalised pairs differ by a whole number of turns; for \<open>start = -1\<close>,
  \<open>stop = 1\<close> they are the same pair.
\<close>

theorem arc_normalize_full_turn_shift:
  "snd (arc_normalize (start + 2 * pi) (stop + 2 * pi)) - fst (arc_normalize (start + 2 * pi) (stop + 2 * pi))
     = snd (arc_normalize start stop) - fst (arc_normalize start stop)
   \<and> (\<exists>k::int. fst (arc_normalize (start + 2 * pi) (stop + 2 * pi))
                    = fst (arc_normalize start stop) + 2 * pi * of_int k
               \<and> snd (arc_normalize (start + 2 * pi) (stop + 2 * pi))
                    = snd (arc_normalize start stop) + 2 * pi * of_int k)
   \<and> arc_normalize (- 1 + 2 * pi) (1 + 2 * pi) = arc_normalize (- 1) 1"
proof -
  have shift: "\<exists>k::int. arc_normalize (a + 2 * pi) (b + 2 * pi)
      = (fst (arc_normalize a b) + 2 * pi * of_int k, snd (arc_normalize a b) + 2 * pi * of_int k)" for a b
  proof (cases "a < 0")
    case True
    have "arc_normalize (a + 2 * pi) (b + 2 * pi) = arc_normalize a b"
      by (simp add: arc_normalize_def arc_loop_neg[OF True] mult.commute)
    then have "arc_normalize (a + 2 * pi) (b + 2 * pi)
      = (fst (arc_normalize a b) + 2 * pi * of_int 0, snd (arc_normalize a b) + 2 * pi * of_int 0)"
      by simp
    then show ?thesis by blast
  next
    case False
    then have a: "0 \<le> a" "0 \<le> a + 2 * pi" using pi_ge_zero by (simp, linarith)
    show ?thesis
    proof (cases "b - a > pi * 2")
      case True
      have "arc_normalize (a + 2 * pi) (b + 2 * pi)
        = (fst (arc_normalize a b) + 2 * pi * of_int 0, snd (arc_normalize a b) + 2 * pi * of_int 0)"
        using True by (simp add: arc_normalize_def arc_loop_nonneg[OF a(1)] arc_loop_nonneg[OF a(2)]
           )
      then show ?thesis by blast
    next
      case False
      have "arc_normalize (a + 2 * pi) (b + 2 * pi)
        = (fst (arc_normalize a b) + 2 * pi * of_int 1, snd (arc_normalize a b) + 2 * pi * of_int 1)"
        using False by (simp add: arc_normalize_def arc_loop_nonneg[OF a(1)] arc_loop_nonneg[OF a(2)]
           )
      then show ?thesis by blast
    qed
  qed
  from shift[of start stop] obtain k :: int where k: "arc_normalize (start + 2 * pi) (stop + 2 * pi)
      = (fst (arc_normalize start stop) + 2 * pi * of_int k,
         snd (arc_normalize start stop) + 2 * pi * of_int k)" by blast
  have 1: "snd (arc_normalize (start + 2 * pi) (stop + 2 * pi))
           - fst (arc_normalize (start + 2 * pi) (stop + 2 * pi))
     = snd (arc_normalize start stop) - fst (arc_normalize start stop)"
    by (simp add: k)
  have 2: "\<exists>k::int. fst (arc_normalize (start + 2 * pi) (stop + 2 * pi))
                    = fst (arc_normalize start stop) + 2 * pi * of_int k
               \<and> snd (arc_normalize (start + 2 * pi) (stop + 2 * pi))
                    = snd (arc_normalize start stop) + 2 * pi * of_int k"
    using k by (intro exI[of _ k]) simp
  have "(- 1 :: real) < 0" by simp
  from arc_loop_neg[OF this, of 1]
  have 3: "arc_normalize (- 1 + 2 * pi) (1 + 2 * pi) = arc_normalize (- 1) 1"
    by (simp add: arc_normalize_def mult.commute)
  from 1 2 3 show ?thesis by blast
qed

section \<open>Rounding of float additions\<close>

lemma round_even_error: "\<bar>of_int (round_even q) - q\<bar> \<le> 1 / 2"
proof -
  have "of_int \<lfloor>q\<rfloor> \<le> q" "q < of_int \<lfloor>q\<rfloor> + 1" by linarith+
  then show ?thesis by (auto simp: round_even_def Let_def)
qed

lemma round_even_of_int: "round_even (of_int n) = n"
  by (simp add: round_even_def)

lemma round_even_below_half:
  assumes "0 \<le> r" "r < 1 / 2"
  shows "round_even (of_int n + r) = n"
proof -
  have "\<lfloor>of_int n + r\<rfloor> = n" using assms by linarith
  then show ?thesis using assms by (simp add: round_even_def)
qed

lemma double_unit_le:
  fixes x :: real
  assumes "x \<noteq> 0"
  shows "(2::real) powr (of_int \<lfloor>log 2 \<bar>x\<bar>\<rfloor> - 52) \<le> \<bar>x\<bar> / 2 ^ 52"
proof -
  have "of_int \<lfloor>log 2 \<bar>x\<bar>\<rfloor> \<le> log 2 \<bar>x\<bar>" by linarith
  then have "(2::real) powr (of_int \<lfloor>log 2 \<bar>x\<bar>\<rfloor>) \<le> 2 powr (log 2 \<bar>x\<bar>)" by simp
  also have "\<dots> = \<bar>x\<bar>" using assms by simp
  finally have "(2::real) powr (of_int \<lfloor>log 2 \<bar>x\<bar>\<rfloor>) \<le> \<bar>x\<bar>" .
  moreover have "(2::real) powr (of_int \<lfloor>log 2 \<bar>x\<bar>\<rfloor> - 52)
      = 2 powr (of_int \<lfloor>log 2 \<bar>x\<bar>\<rfloor>) / 2 ^ 52"
    by (simp add: powr_diff)
  ultimately show ?thesis by (simp add: divide_right_mono)
qed

text \<open>The relative error of the rounding is at most \<open>2\<^sup>-\<^sup>5\<^sup>3\<close>.\<close>

lemma round_double_error: "\<bar>round_double x - x\<bar> \<le> \<bar>x\<bar> / 2 ^ 53"
proof (cases "x = 0")
  case True
  then show ?thesis by (simp add: round_double_def)
next
  case False
  define u :: real where "u = 2 powr (of_int \<lfloor>log 2 \<bar>x\<bar>\<rfloor> - 52)"
  have u: "0 < u" by (simp add: u_def)
  have r: "round_double x = of_int (round_even (x / u)) * u"
    using False by (simp add: round_double_def u_def Let_def)
  have "round_double x - x = (of_int (round_even (x / u)) - x / u) * u"
    using u by (simp add: r algebra_simps)
  then have "\<bar>round_double x - x\<bar> = \<bar>of_int (round_even (x / u)) - x / u\<bar> * u"
    using u by (simp add: abs_mult)
  also have "\<dots> \<le> (1 / 2) * u"
    using u round_even_error[of "x / u"] by (intro mult_right_mono) simp_all
  also have "\<dots> \<le> (1 / 2) * (\<bar>x\<bar> / 2 ^ 52)"
    using double_unit_le[OF False] by (simp add: u_def)
  also have "\<dots> = \<bar>x\<bar> / 2 ^ 53" by simp
  finally show ?thesis .
qed

text \<open>A number with the binary exponent \<open>e\<close> is rounded on the grid of step \<open>2\<^sup>e\<^sup>-\<^sup>5\<^sup>2\<close>.\<close>

lemma round_double_grid:
  fixes e :: int and x :: real
  assumes "2 powr (of_int e) \<le> \<bar>x\<bar>" and "\<bar>x\<bar> < 2 powr (of_int e + 1)"
  shows "round_double x = of_int (round_even (x / 2 powr (of_int e - 52))) * 2 powr (of_int e - 52)"
proof -
  have pos: "0 < \<bar>x\<bar>" using assms(1) by (smt (verit) powr_gt_zero)
  then have nz: "x \<noteq> 0" by auto
  have "of_int e \<le> log 2 \<bar>x\<bar>" using assms(1) pos by (simp add: le_log_iff)
  moreover have "log 2 \<bar>x\<bar> < of_int e + 1" using assms(2) pos by (simp add: log_less_iff)
  ultimately have "\<lfloor>log 2 \<bar>x\<bar>\<rfloor> = e" by linarith
  then show ?thesis using nz by (simp add: round_double_def Let_def)
qed

lemma round_double_exact:
  fixes e n :: int and x :: real
  assumes "2 powr (of_int e) \<le> \<bar>x\<bar>" and "\<bar>x\<bar> < 2 powr (of_int e + 1)"
      and "x / 2 powr (of_int e - 52) = of_int n"
  shows "round_double x = x"
proof -
  have "round_double x = of_int n * 2 powr (of_int e - 52)"
    by (simp only: round_double_grid[OF assms(1,2)] assms(3) round_even_of_int)
  also have "\<dots> = x" unfolding assms(3)[symmetric] by simp
  finally show ?thesis .
qed

lemma round_double_3_2: "round_double (3 / 2) = 3 / 2"
  by (rule round_double_exact[of 0 _ 6755399441055744]) (simp_all add: powr_minus)

lemma round_double_3: "round_double (3) = 3"
  by (rule round_double_exact[of 1 _ 6755399441055744]) (simp_all add: powr_minus)

lemma round_double_1: "round_double (1) = 1"
  by (rule round_double_exact[of 0 _ 4503599627370496]) (simp_all add: powr_minus)

lemma round_double_2: "round_double (2) = 2"
  by (rule round_double_exact[of 1 _ 4503599627370496]) (simp_all add: powr_minus)

lemma float_add_0_32: "float_add (0) (3 / 2) = 3 / 2"
  using round_double_3_2 by (simp add: float_add_def)

lemma float_add_32_32: "float_add (3 / 2) (3 / 2) = 3"
  using round_double_3 by (simp add: float_add_def)

lemma float_add_0_1: "float_add (0) (1) = 1"
  using round_double_1 by (simp add: float_add_def)

lemma float_add_1_1: "float_add (1) (1) = 2"
  using round_double_2 by (simp add: float_add_def)

lemma float_add_2_1: "float_add (2) (1) = 3"
  using round_double_3 by (simp add: float_add_def)

section \<open>Termination of the scan-line sweep\<close>

lemma hachure_gap_ge: "0.1 \<le> hachure_gap opts"
  by (simp add: hachure_gap_def)

lemma float_add_progress:
  assumes "\<bar>y\<bar> \<le> Y" and "0 \<le> g"
  shows "y + g - (Y + g) / 2 ^ 53 \<le> float_add y g"
proof -
  have "\<bar>round_double (y + g) - (y + g)\<bar> \<le> \<bar>y + g\<bar> / 2 ^ 53" by (rule round_double_error)
  moreover have "\<bar>y + g\<bar> \<le> Y + g" using assms by linarith
  then have "\<bar>y + g\<bar> / 2 ^ 53 \<le> (Y + g) / 2 ^ 53" by (simp add: divide_right_mono)
  ultimately show ?thesis unfolding float_add_def by linarith
qed

text \<open>The sweep ends when every pass advances the scan line by at least \<open>s > 0\<close>.\<close>

lemma scan_loop_returns:
  assumes s: "0 < s" and step: "\<forall>y. lo \<le> y \<and> y \<le> maxY \<longrightarrow> y + s \<le> float_add y g"
  shows "lo \<le> y \<Longrightarrow> maxY - y < real fuel * s \<Longrightarrow> scan_loop fuel rpoly g a maxY y \<noteq> None"
proof (induction fuel arbitrary: y)
  case 0
  then have "\<not> y \<le> maxY" by simp
  then show ?case by (simp add: scan_loop.simps)
next
  case (Suc n)
  show ?case
  proof (cases "y \<le> maxY")
    case False
    then show ?thesis by (simp add: scan_loop.simps)
  next
    case True
    with step Suc.prems(1) have adv: "y + s \<le> float_add y g" by blast
    have "real (Suc n) * s = real n * s + s" by (simp add: algebra_simps)
    with Suc.prems(2) adv have "maxY - float_add y g < real n * s" by linarith
    moreover from adv s Suc.prems(1) have "lo \<le> float_add y g" by linarith
    ultimately have "scan_loop n rpoly g a maxY (float_add y g) \<noteq> None" by (rule Suc.IH[rotated])
    then show ?thesis using True by (subst scan_loop.simps) (auto split: option.splits)
  qed
qed

text \<open>The sweep never ends when an addition leaves the scan line where it is.\<close>

lemma scan_loop_stalls:
  assumes "float_add y g = y" and "y \<le> maxY"
  shows "scan_loop fuel rpoly g a maxY y = None"
proof (induction fuel)
  case 0
  show ?case using assms(2) by (simp add: scan_loop.simps)
next
  case (Suc n)
  show ?case using assms Suc by (subst scan_loop.simps) simp
qed

lemma scan_loop_fuel_mono:
  "scan_loop fuel rpoly gap a maxY y = Some r \<Longrightarrow> fuel \<le> fuel' \<Longrightarrow>
   scan_loop fuel' rpoly gap a maxY y = Some r"
proof (induction fuel arbitrary: y r fuel')
  case 0
  then show ?case by (simp add: scan_loop.simps[of 0] scan_loop.simps[of fuel'] split: if_splits)
next
  case (Suc n)
  show ?case
  proof (cases "y \<le> maxY")
    case False
    then show ?thesis using Suc.prems(1)
      by (simp add: scan_loop.simps[of "Suc n"] scan_loop.simps[of fuel'])
  next
    case True
    from Suc.prems(2) obtain m where m: "fuel' = Suc m" "n \<le> m" by (cases fuel') auto
    from Suc.prems(1) True obtain rest where
      rest: "scan_loop n rpoly gap a maxY (float_add y gap) = Some rest"
        "r = scan_line rpoly a y @ rest"
      by (auto simp: scan_loop.simps[of "Suc n"] split: option.splits)
    from Suc.IH[OF rest(1) m(2)] show ?thesis
      using True by (simp add: scan_loop.simps[of "Suc m"] m(1) rest(2))
  qed
qed

lemma polygon_lines_fuel_mono:
  "polygon_lines fuel poly opts = Some r \<Longrightarrow> fuel \<le> fuel' \<Longrightarrow>
   polygon_lines fuel' poly opts = Some r"
  by (auto simp: polygon_lines_def Let_def intro: scan_loop_fuel_mono split: if_splits)

lemma polygon_hachure_lines_fuel_mono:
  "polygon_hachure_lines fuel ps opts = Some r \<Longrightarrow> fuel \<le> fuel' \<Longrightarrow>
   polygon_hachure_lines fuel' ps opts = Some r"
proof (induction ps arbitrary: r)
  case Nil
  then show ?case by simp
next
  case (Cons p ps)
  from Cons.prems(1) obtain a b where ab: "polygon_lines fuel p opts = Some a"
    "polygon_hachure_lines fuel ps opts = Some b" "r = a @ b"
    by (auto split: option.splits)
  from polygon_lines_fuel_mono[OF ab(1) Cons.prems(2)] Cons.IH[OF ab(2) Cons.prems(2)] ab(3)
  show ?case by simp
qed

lemma rotatePoint_ordinate_le: "\<bar>snd (rotatePoint p th)\<bar> \<le> \<bar>fst p\<bar> + \<bar>snd p\<bar>"
proof -
  have "\<bar>fst p * sin th + snd p * cos th\<bar> \<le> \<bar>fst p * sin th\<bar> + \<bar>snd p * cos th\<bar>"
    by (rule abs_triangle_ineq)
  also have "\<bar>fst p * sin th\<bar> \<le> \<bar>fst p\<bar> * 1"
    unfolding abs_mult by (intro mult_left_mono) simp_all
  also have "\<bar>snd p * cos th\<bar> \<le> \<bar>snd p\<bar> * 1"
    unfolding abs_mult by (intro mult_left_mono) simp_all
  finally show ?thesis by (simp add: rotatePoint_def Let_def)
qed

lemma rotated_ordinates_bounded:
  assumes "\<forall>p \<in> set poly. \<bar>fst p\<bar> \<le> B \<and> \<bar>snd p\<bar> \<le> B"
  shows "\<forall>v \<in> set (map snd (rotated_polygon opts poly)). \<bar>v\<bar> \<le> 2 * B"
proof
  fix v assume "v \<in> set (map snd (rotated_polygon opts poly))"
  then obtain p where p: "p \<in> set poly" "v = snd (rotatePoint p (- hachure_angle_rad opts))"
    by (auto simp: rotated_polygon_def)
  from rotatePoint_ordinate_le[of p "- hachure_angle_rad opts"] assms p
  show "\<bar>v\<bar> \<le> 2 * B" by fastforce
qed

lemma Min_Max_bounded:
  fixes xs :: "real list"
  assumes "xs \<noteq> []" and "\<forall>v \<in> set xs. \<bar>v\<bar> \<le> Y"
  shows "\<bar>Min (set xs)\<bar> \<le> Y" "\<bar>Max (set xs)\<bar> \<le> Y" "Min (set xs) \<le> Max (set xs)"
proof -
  from assms(1) have ne: "set xs \<noteq> {}" by simp
  have "Min (set xs) \<in> set xs" using ne by (intro Min_in) simp_all
  with assms(2) show "\<bar>Min (set xs)\<bar> \<le> Y" by blast
  have "Max (set xs) \<in> set xs" using ne by (intro Max_in) simp_all
  with assms(2) show "\<bar>Max (set xs)\<bar> \<le> Y" by blast
  show "Min (set xs) \<le> Max (set xs)" using ne by (simp add: Min_le_iff)
qed

text \<open>With ordinates of magnitude at most \<open>Y\<close> and a gap \<open>g\<close>, every pass advances the
  scan line by at least \<open>g - (Y + g) / 2\<^sup>5\<^sup>3\<close>.\<close>

lemma sweep_step:
  assumes "\<bar>lo\<bar> \<le> Y" "\<bar>maxY\<bar> \<le> Y" "0 \<le> g"
  shows "\<forall>y. lo \<le> y \<and> y \<le> maxY \<longrightarrow> y + (g - (Y + g) / 2 ^ 53) \<le> float_add y g"
proof (intro allI impI)
  fix y assume "lo \<le> y \<and> y \<le> maxY"
  with assms have "\<bar>y\<bar> \<le> Y" by linarith
  from float_add_progress[OF this assms(3)] show "y + (g - (Y + g) / 2 ^ 53) \<le> float_add y g"
    by linarith
qed

lemma polygon_lines_unfold:
  "3 \<le> length poly \<Longrightarrow>
   polygon_lines fuel poly opts =
     scan_loop fuel (rotated_polygon opts poly) (hachure_gap opts) (hachure_angle_rad opts)
       (Max (set (map snd (rotated_polygon opts poly))))
       (Min (set (map snd (rotated_polygon opts poly))))"
proof -
  assume "3 \<le> length poly"
  then have "\<not> length poly < 3" by simp
  then show ?thesis by (simp only: polygon_lines_def Let_def if_False)
qed

text \<open>Coordinates of magnitude at most \<open>2\<^sup>2\<^sup>1\<close>: the sweep ends within the stated number of
  passes.\<close>

lemma polygon_lines_fuel_bound:
  assumes small: "\<forall>p \<in> set poly. \<bar>fst p\<bar> \<le> 2 ^ 21 \<and> \<bar>snd p\<bar> \<le> 2 ^ 21"
  shows "polygon_lines (nat \<lceil>(Max (set (map snd (rotated_polygon opts poly)))
                        - Min (set (map snd (rotated_polygon opts poly)))) / 0.1\<rceil> + 1) poly opts
     \<noteq> None"
proof (cases "3 \<le> length poly")
  case False
  then show ?thesis by (simp add: polygon_lines_def)
next
  case True
  let ?ys = "map snd (rotated_polygon opts poly)"
  let ?m = "Min (set ?ys)" and ?M = "Max (set ?ys)"
  let ?g = "hachure_gap opts"
  let ?N = "nat \<lceil>(?M - ?m) / 0.1\<rceil> + 1"
  define s where "s = ?g - (2 ^ 22 + ?g) / 2 ^ 53"
  from True have ne: "?ys \<noteq> []" by (auto simp: rotated_polygon_def)
  have b: "\<forall>v \<in> set ?ys. \<bar>v\<bar> \<le> 2 ^ 22"
    using rotated_ordinates_bounded[OF small, of opts] by simp
  note mm = Min_Max_bounded[OF ne b]
  have g: "1 / 10 \<le> ?g" using hachure_gap_ge[of opts] by simp
  have s0: "1 / 10 - (1 / 10) / 2 ^ 53 - 1 / 2 ^ 31 \<le> s"
    unfolding s_def using g by (simp add: field_simps)
  then have spos: "0 < s" by (simp add: field_simps)
  have step: "\<forall>y. ?m \<le> y \<and> y \<le> ?M \<longrightarrow> y + s \<le> float_add y ?g"
    unfolding s_def using g by (intro sweep_step mm) simp
  define H where "H = ?M - ?m"
  have p23: "(2::real) ^ 23 = 2 * 2 ^ 22" by simp
  have H: "0 \<le> H" "H \<le> 2 ^ 23" unfolding H_def p23 using mm by linarith+
  have N: "10 * H + 1 \<le> real ?N"
  proof -
    define c where "c = \<lceil>(?M - ?m) / 0.1\<rceil>"
    have "(?M - ?m) / 0.1 \<le> of_int c" unfolding c_def by (rule le_of_int_ceiling)
    moreover have "(?M - ?m) / 0.1 = 10 * H" by (simp add: H_def)
    ultimately have c1: "10 * H \<le> of_int c" by simp
    with H(1) have "(0::real) \<le> of_int c" by linarith
    then have "0 \<le> c" by simp
    then have "real (nat c + 1) = of_int c + 1" by simp
    with c1 show ?thesis unfolding c_def by linarith
  qed
  have "H * (1 - 10 * s) \<le> H * (1 / 2 ^ 53 + 10 / 2 ^ 31)"
    using s0 H(1) by (intro mult_left_mono) (simp_all add: field_simps)
  also have "\<dots> \<le> 2 ^ 23 * (1 / 2 ^ 53 + 10 / 2 ^ 31)"
    using H(2) by (intro mult_right_mono) simp_all
  also have "\<dots> < 1 / 10 - (1 / 10) / 2 ^ 53 - 1 / 2 ^ 31" by simp
  finally have "H * (1 - 10 * s) < s" using s0 by linarith
  then have "H < (10 * H + 1) * s" by (simp add: algebra_simps)
  also have "\<dots> \<le> real ?N * s" using N spos by (intro mult_right_mono) simp_all
  finally have "?M - ?m < real ?N * s" unfolding H_def .
  from scan_loop_returns[OF spos step order_refl this]
  show ?thesis unfolding polygon_lines_unfold[OF True] .
qed

text \<open>Coordinates of magnitude at most \<open>2\<^sup>4\<^sup>8\<close>: the sweep ends.\<close>

lemma polygon_lines_returns:
  assumes small: "\<forall>p \<in> set poly. \<bar>fst p\<bar> \<le> 2 ^ 48 \<and> \<bar>snd p\<bar> \<le> 2 ^ 48"
  shows "\<exists>fuel r. polygon_lines fuel poly opts = Some r"
proof (cases "3 \<le> length poly")
  case False
  then show ?thesis by (simp add: polygon_lines_def)
next
  case True
  let ?ys = "map snd (rotated_polygon opts poly)"
  let ?m = "Min (set ?ys)" and ?M = "Max (set ?ys)"
  let ?g = "hachure_gap opts"
  define s where "s = ?g - (2 ^ 49 + ?g) / 2 ^ 53"
  from True have ne: "?ys \<noteq> []" by (auto simp: rotated_polygon_def)
  have b: "\<forall>v \<in> set ?ys. \<bar>v\<bar> \<le> 2 ^ 49"
    using rotated_ordinates_bounded[OF small, of opts] by simp
  note mm = Min_Max_bounded[OF ne b]
  have g: "1 / 10 \<le> ?g" using hachure_gap_ge[of opts] by simp
  have "1 / 10 - (1 / 10) / 2 ^ 53 - 1 / 2 ^ 4 \<le> s"
    unfolding s_def using g by (simp add: field_simps)
  then have spos: "0 < s" by (simp add: field_simps)
  have step: "\<forall>y. ?m \<le> y \<and> y \<le> ?M \<longrightarrow> y + s \<le> float_add y ?g"
    unfolding s_def using g by (intro sweep_step mm) simp
  from ex_less_of_nat_mult[OF spos, of "?M - ?m"]
  obtain n where "?M - ?m < real n * s" by blast
  from scan_loop_returns[OF spos step order_refl this]
  show ?thesis unfolding polygon_lines_unfold[OF True] by blast
qed

lemma polygon_hachure_lines_returns:
  assumes "\<forall>poly \<in> set ps. \<forall>p \<in> set poly. \<bar>fst p\<bar> \<le> 2 ^ 48 \<and> \<bar>snd p\<bar> \<le> 2 ^ 48"
  shows "\<exists>fuel r. polygon_hachure_lines fuel ps opts = Some r"
  using assms
proof (induction ps)
  case Nil
  show ?case by simp
next
  case (Cons p ps)
  then obtain f1 b where b: "polygon_hachure_lines f1 ps opts = Some b" by auto
  from Cons.prems have "\<forall>v \<in> set p. \<bar>fst v\<bar> \<le> 2 ^ 48 \<and> \<bar>snd v\<bar> \<le> 2 ^ 48" by simp
  from polygon_lines_returns[OF this, of opts]
  obtain f2 a where a: "polygon_lines f2 p opts = Some a" by blast
  have "polygon_hachure_lines (max f1 f2) (p # ps) opts = Some (a @ b)"
    using polygon_lines_fuel_mono[OF a, of "max f1 f2"]
      polygon_hachure_lines_fuel_mono[OF b, of "max f1 f2"] by simp
  then show ?case by blast
qed

lemma level_hachure_options_eval:
  "level_hachure_options g = (seed_options 1)\<lparr>hachureAngle := Some (- 90), hachureGap := Some g\<rparr>"
  by (simp add: seed_options_eval level_hachure_options_def RoughGenerator_o_def merged_options_def
      RoughGenerator_defaultOptions_def ResolvedOptions_init_def Options_init_def
      copy_set_fields_def pick_def visibility_rules_def default_fill_def default_stroke_def
      hide_zero_width_def)

lemma level_angle: "hachure_angle_rad (level_hachure_options g) = 0"
  by (simp add: level_hachure_options_eval hachure_angle_rad_def radians_def or_default_def)

lemma level_rotated: "rotated_polygon (level_hachure_options g) poly = poly"
  by (simp add: rotated_polygon_def level_angle rotatePoint_def)

lemma level_gap: "0.1 \<le> g \<Longrightarrow> hachure_gap (level_hachure_options g) = g"
  by (simp add: hachure_gap_def level_hachure_options_eval)

lemma level_gap_zero: "hachure_gap (level_hachure_options 0) = 1 / 10"
  by (simp add: hachure_gap_def level_hachure_options_eval)

lemma level_polygon_lines:
  "polygon_lines fuel [a, b, c] (level_hachure_options g)
     = scan_loop fuel [a, b, c] (hachure_gap (level_hachure_options g)) 0
         (Max {snd a, snd b, snd c}) (Min {snd a, snd b, snd c})"
  by (simp add: polygon_lines_def level_rotated level_angle Let_def)

text \<open>The stalled sweep: \<open>10\<^sup>1\<^sup>7 + 3.5\<close> is rounded back to \<open>10\<^sup>1\<^sup>7\<close>, the doubles there being
  16 apart.\<close>

lemma float_add_stalls: "float_add (10 ^ 17) (7 / 2) = 10 ^ 17"
proof -
  have "round_double (10 ^ 17 + 7 / 2)
      = of_int (round_even ((10 ^ 17 + 7 / 2) / 2 powr (of_int 56 - 52))) * 2 powr (of_int 56 - 52)"
    by (rule round_double_grid) simp_all
  moreover have "((10 ^ 17 + 7 / 2) / 2 powr (of_int 56 - 52) :: real)
      = of_int 6250000000000000 + 7 / 32" by simp
  moreover have "round_even (of_int 6250000000000000 + 7 / 32) = 6250000000000000"
    by (rule round_even_below_half) simp_all
  ultimately show ?thesis by (simp add: float_add_def)
qed

text \<open>The slowed sweep: near \<open>10\<^sup>1\<^sup>2\<close> the doubles are \<open>2\<^sup>-\<^sup>1\<^sup>3\<close> apart, and adding 0.1 advances
  by 819 of them, a little less than 0.1.\<close>

lemma float_add_slowed:
  assumes "k \<le> 5001"
  shows "float_add (10 ^ 12 + real k * (819 / 8192)) (1 / 10)
       = 10 ^ 12 + real (Suc k) * (819 / 8192)"
proof -
  define x :: real where "x = 10 ^ 12 + real k * (819 / 8192) + 1 / 10"
  have k: "0 \<le> real k" "real k \<le> 5001" using assms by simp_all
  have lo: "10 ^ 12 \<le> x" unfolding x_def using k by simp
  have "real k * (819 / 8192) \<le> 5001 * (819 / 8192)"
    using k by (intro mult_right_mono) simp_all
  then have hi: "x \<le> 10 ^ 12 + 501" unfolding x_def by simp
  have ax: "\<bar>x\<bar> = x" using lo by simp
  have "round_double x
      = of_int (round_even (x / 2 powr (of_int 39 - 52))) * 2 powr (of_int 39 - 52)"
    using lo hi by (intro round_double_grid) (simp_all add: ax)
  moreover have "x / 2 powr (of_int 39 - 52)
      = of_int (8192 * 10 ^ 12 + 819 * int k + 819) + 1 / 5"
    by (simp add: x_def powr_minus field_simps)
  moreover have "round_even (of_int (8192 * 10 ^ 12 + 819 * int k + 819) + 1 / 5)
      = 8192 * 10 ^ 12 + 819 * int k + 819"
    by (rule round_even_below_half) simp_all
  ultimately have "round_double x
      = of_int (8192 * 10 ^ 12 + 819 * int k + 819) * 2 powr (of_int 39 - 52)" by simp
  also have "\<dots> = 10 ^ 12 + real (Suc k) * (819 / 8192)"
    by (simp add: powr_minus field_simps)
  finally show ?thesis by (simp add: float_add_def x_def)
qed

lemma scan_loop_Suc:
  "y \<le> maxY \<Longrightarrow>
   scan_loop (Suc n) rpoly g a maxY y =
     (case scan_loop n rpoly g a maxY (float_add y g) of
        None \<Rightarrow> None
      | Some rest \<Rightarrow> Some (scan_line rpoly a y @ rest))"
  by (subst scan_loop.simps) simp

lemma scan_loop_0: "y \<le> maxY \<Longrightarrow> scan_loop 0 rpoly g a maxY y = None"
  by (subst scan_loop.simps) simp

lemma scan_loop_done: "\<not> y \<le> maxY \<Longrightarrow> scan_loop fuel rpoly g a maxY y = Some []"
  by (subst scan_loop.simps) simp

lemma slowed_le:
  "k \<le> 5001 \<Longrightarrow> 10 ^ 12 + real k * (819 / 8192) \<le> (10 ^ 12 + 500 :: real)"
proof -
  assume "k \<le> 5001"
  then have "real k * (819 / 8192) \<le> 5001 * (819 / 8192)"
    by (intro mult_right_mono) simp_all
  then show ?thesis by simp
qed

lemma slowed_sweep_runs_out:
  "k + fuel \<le> 5001 \<Longrightarrow>
   scan_loop fuel rpoly (1 / 10) a (10 ^ 12 + 500) (10 ^ 12 + real k * (819 / 8192)) = None"
proof (induction fuel arbitrary: k)
  case 0
  then have "k \<le> 5001" by simp
  from scan_loop_0[OF slowed_le[OF this]] show ?case .
next
  case (Suc n)
  then have k: "k \<le> 5001" by simp
  from Suc.prems have "Suc k + n \<le> 5001" by simp
  from Suc.IH[OF this] show ?case
    unfolding scan_loop_Suc[OF slowed_le[OF k]] float_add_slowed[OF k] by simp
qed

lemma slowed_sweep_returns:
  "5002 \<le> k + fuel \<Longrightarrow> k \<le> 5002 \<Longrightarrow>
   scan_loop fuel rpoly (1 / 10) a (10 ^ 12 + 500) (10 ^ 12 + real k * (819 / 8192)) \<noteq> None"
proof (induction fuel arbitrary: k)
  case 0
  then have "k = 5002" by simp
  then have "\<not> 10 ^ 12 + real k * (819 / 8192) \<le> (10 ^ 12 + 500 :: real)" by simp
  from scan_loop_done[OF this] show ?case by simp
next
  case (Suc n)
  show ?case
  proof (cases "k \<le> 5001")
    case True
    from Suc.prems True have "5002 \<le> Suc k + n" "Suc k \<le> 5002" by simp_all
    from Suc.IH[OF this] show ?thesis
      unfolding scan_loop_Suc[OF slowed_le[OF True]] float_add_slowed[OF True]
      by (auto split: option.splits)
  next
    case False
    with Suc.prems have "k = 5002" by simp
    then have "\<not> 10 ^ 12 + real k * (819 / 8192) \<le> (10 ^ 12 + 500 :: real)" by simp
    from scan_loop_done[OF this] show ?thesis by simp
  qed
qed

lemma scan_tri_0: "scan_line [(0, 0), (2, 1), (0, 2)] 0 0 = []"
  by (simp add: scan_line_def horizontalIntersectionsNonZero_def edge_crossing_def
        edge_intersects_scanline_def xIntersect_def Let_def upt_rec)

lemma crossings_tri_1: "horizontalIntersectionsNonZero [(0, 0), (2, 1), (0, 2)] 1 = [(0, - 1)]"
  by (simp add: horizontalIntersectionsNonZero_def edge_crossing_def
        edge_intersects_scanline_def xIntersect_def Let_def upt_rec)

lemma scan_tri_1: "scan_line [(0, 0), (2, 1), (0, 2)] 0 1 = []"
  by (simp add: scan_line_def crossings_tri_1)

lemma scan_tri_2: "scan_line [(0, 0), (2, 1), (0, 2)] 0 2 = []"
  by (simp add: scan_line_def horizontalIntersectionsNonZero_def edge_crossing_def
        edge_intersects_scanline_def xIntersect_def Let_def upt_rec)

lemma scan_tri_15: "scan_line [(0, 0), (2, 1), (0, 2)] 0 (3 / 2) = [((0, 3 / 2), (1, 3 / 2))]"
  by (simp add: scan_line_def horizontalIntersectionsNonZero_def edge_crossing_def
        edge_intersects_scanline_def xIntersect_def Let_def upt_rec rotatePoint_def)

lemma tri_sweep_coarse:
  "scan_loop 3 [(0, 0), (2, 1), (0, 2)] (3 / 2) 0 2 0 = Some [((0, 3 / 2), (1, 3 / 2))]"
proof -
  have 3: "(3::nat) = Suc (Suc (Suc 0))" by simp
  have a: "scan_loop (Suc 0) [(0, 0), (2, 1), (0, 2)] (3 / 2) 0 2 3 = Some []"
    by (rule scan_loop_done) simp
  have b: "scan_loop (Suc (Suc 0)) [(0, 0), (2, 1), (0, 2)] (3 / 2) 0 2 (3 / 2)
      = Some [((0, 3 / 2), (1, 3 / 2))]"
    by (subst scan_loop_Suc) (simp_all add: float_add_32_32 a scan_tri_15)
  show ?thesis unfolding 3
    by (subst scan_loop_Suc) (simp_all add: float_add_0_32 b scan_tri_0)
qed

lemma tri_sweep_fine:
  "scan_loop 3 [(0, 0), (2, 1), (0, 2)] 1 0 2 0 = Some []"
proof -
  have 3: "(3::nat) = Suc (Suc (Suc 0))" by simp
  have a: "scan_loop 0 [(0, 0), (2, 1), (0, 2)] 1 0 2 3 = Some []"
    by (rule scan_loop_done) simp
  have b: "scan_loop (Suc 0) [(0, 0), (2, 1), (0, 2)] 1 0 2 2 = Some []"
    by (subst scan_loop_Suc) (simp_all add: float_add_2_1 a scan_tri_2)
  have c: "scan_loop (Suc (Suc 0)) [(0, 0), (2, 1), (0, 2)] 1 0 2 1 = Some []"
    by (subst scan_loop_Suc) (simp_all add: float_add_1_1 b scan_tri_1)
  show ?thesis unfolding 3
    by (subst scan_loop_Suc) (simp_all add: float_add_0_1 c scan_tri_0)
qed

text \<open>
  C10, amended.  Whatever the options (a \<open>hachureGap\<close> that is zero, negative or absent
  included), the spacing of the scan lines is at least 0.1.  When no coordinate of the
  polygon exceeds \<open>2\<^sup>2\<^sup>1\<close> in absolute value, the sweep of the polygon ends within
  \<open>\<lceil>(maxY - minY) / 0.1\<rceil> + 1\<close> passes of its loop, \<open>minY\<close> and \<open>maxY\<close> being the extreme
  ordinates of the rotated polygon.  When no coordinate of any polygon exceeds \<open>2\<^sup>4\<^sup>8\<close>
  in absolute value, \<open>polygon_hachure_lines\<close> returns.
\<close>

theorem polygon_hachure_lines_terminates:
  "0.1 \<le> hachure_gap opts
   \<and> ((\<forall>p \<in> set poly. \<bar>fst p\<bar> \<le> 2 ^ 21 \<and> \<bar>snd p\<bar> \<le> 2 ^ 21) \<longrightarrow>
        polygon_lines (nat \<lceil>(Max (set (map snd (rotated_polygon opts poly)))
                        - Min (set (map snd (rotated_polygon opts poly)))) / 0.1\<rceil> + 1) poly opts
          \<noteq> None)
   \<and> ((\<forall>poly \<in> set polygonList. \<forall>p \<in> set poly. \<bar>fst p\<bar> \<le> 2 ^ 48 \<and> \<bar>snd p\<bar> \<le> 2 ^ 48) \<longrightarrow>
        (\<exists>fuel r. polygon_hachure_lines fuel polygonList opts = Some r))"
  using hachure_gap_ge polygon_lines_fuel_bound polygon_hachure_lines_returns by blast

theorem polygon_hachure_lines_terminates_witness:
  "(0.1::real) \<le> hachure_gap (level_hachure_options (3 / 2))
   \<and> polygon_lines 21 [(0, 0), (2, 1), (0, 2)] (level_hachure_options (3 / 2)) \<noteq> None
   \<and> (\<exists>fuel r. polygon_hachure_lines fuel [[(0, 0), (2, 1), (0, 2)]] (level_hachure_options (3 / 2))
         = Some r)"
proof -
  let ?T = "[(0, 0), (2, 1), (0, 2)] :: (real \<times> real) list"
  let ?o = "level_hachure_options (3 / 2)"
  have h1: "\<forall>p \<in> set ?T. \<bar>fst p\<bar> \<le> 2 ^ 21 \<and> \<bar>snd p\<bar> \<le> 2 ^ 21" by simp
  have h2: "\<forall>poly \<in> set [?T]. \<forall>p \<in> set poly. \<bar>fst p\<bar> \<le> 2 ^ 48 \<and> \<bar>snd p\<bar> \<le> 2 ^ 48" by simp
  have n: "nat \<lceil>(Max (set (map snd (rotated_polygon ?o ?T)))
                - Min (set (map snd (rotated_polygon ?o ?T)))) / 0.1\<rceil> + 1 = 21"
    by (simp add: level_rotated)
  from polygon_hachure_lines_terminates[of ?o ?T "[?T]"] h1 h2
  show ?thesis unfolding n by blast
qed

text \<open>
  C10 as stated fails for large ordinates.  On the triangle \<open>(0, 10\<^sup>1\<^sup>7)\<close>,
  \<open>(1, 10\<^sup>1\<^sup>7 + 32)\<close>, \<open>(0, 10\<^sup>1\<^sup>7 + 64)\<close> with level scan lines and the gap 3.5 the scan
  line never leaves \<open>10\<^sup>1\<^sup>7\<close>: the sweep has not ended after the
  \<open>\<lceil>64 / 0.1\<rceil> + 1 = 641\<close> passes of the bound, nor after a million.  On the triangle
  \<open>(0, 10\<^sup>1\<^sup>2)\<close>, \<open>(1, 10\<^sup>1\<^sup>2 + 250)\<close>, \<open>(0, 10\<^sup>1\<^sup>2 + 500)\<close> with \<open>hachureGap = 0\<close>, hence the
  clamped gap 0.1, the sweep ends, but after 5002 passes, one more than the bound
  \<open>\<lceil>500 / 0.1\<rceil> + 1 = 5001\<close>.
\<close>

theorem sweep_stalls_at_large_ordinates:
  "polygon_lines
     (nat \<lceil>(Max (set (map snd (rotated_polygon (level_hachure_options (7 / 2))
                 [(0, 10 ^ 17), (1, 10 ^ 17 + 32), (0, 10 ^ 17 + 64)])))
            - Min (set (map snd (rotated_polygon (level_hachure_options (7 / 2))
                 [(0, 10 ^ 17), (1, 10 ^ 17 + 32), (0, 10 ^ 17 + 64)])))) / 0.1\<rceil> + 1)
     [(0, 10 ^ 17), (1, 10 ^ 17 + 32), (0, 10 ^ 17 + 64)] (level_hachure_options (7 / 2)) = None
   \<and> polygon_hachure_lines 1000000 [[(0, 10 ^ 17), (1, 10 ^ 17 + 32), (0, 10 ^ 17 + 64)]]
        (level_hachure_options (7 / 2)) = None
   \<and> polygon_lines
     (nat \<lceil>(Max (set (map snd (rotated_polygon (level_hachure_options 0)
                 [(0, 10 ^ 12), (1, 10 ^ 12 + 250), (0, 10 ^ 12 + 500)])))
            - Min (set (map snd (rotated_polygon (level_hachure_options 0)
                 [(0, 10 ^ 12), (1, 10 ^ 12 + 250), (0, 10 ^ 12 + 500)])))) / 0.1\<rceil> + 1)
     [(0, 10 ^ 12), (1, 10 ^ 12 + 250), (0, 10 ^ 12 + 500)] (level_hachure_options 0) = None
   \<and> polygon_lines 5002 [(0, 10 ^ 12), (1, 10 ^ 12 + 250), (0, 10 ^ 12 + 500)]
        (level_hachure_options 0) \<noteq> None"
proof -
  have g: "hachure_gap (level_hachure_options (7 / 2)) = 7 / 2" by (rule level_gap) simp
  have stall: "scan_loop fuel [(0, 10 ^ 17), (1, 10 ^ 17 + 32), (0, 10 ^ 17 + 64)] (7 / 2) 0
      (10 ^ 17 + 64) (10 ^ 17) = None" for fuel
    by (rule scan_loop_stalls[OF float_add_stalls]) simp
  have a: "polygon_lines fuel [(0, 10 ^ 17), (1, 10 ^ 17 + 32), (0, 10 ^ 17 + 64)]
      (level_hachure_options (7 / 2)) = None" for fuel
    using stall[of fuel] by (simp add: level_polygon_lines g)
  have out: "scan_loop 5001 [(0, 10 ^ 12), (1, 10 ^ 12 + 250), (0, 10 ^ 12 + 500)] (1 / 10) 0
      (10 ^ 12 + 500) (10 ^ 12 + real 0 * (819 / 8192)) = None"
    by (rule slowed_sweep_runs_out) simp
  have ret: "scan_loop 5002 [(0, 10 ^ 12), (1, 10 ^ 12 + 250), (0, 10 ^ 12 + 500)] (1 / 10) 0
      (10 ^ 12 + 500) (10 ^ 12 + real 0 * (819 / 8192)) \<noteq> None"
    by (rule slowed_sweep_returns) simp_all
  have n: "nat \<lceil>(Max (set (map snd (rotated_polygon (level_hachure_options 0)
                 [(0, 10 ^ 12), (1, 10 ^ 12 + 250), (0, 10 ^ 12 + 500)])))
            - Min (set (map snd (rotated_polygon (level_hachure_options 0)
                 [(0, 10 ^ 12), (1, 10 ^ 12 + 250), (0, 10 ^ 12 + 500)])))) / 0.1\<rceil> + 1 = 5001"
    by (simp add: level_rotated)
  have b: "polygon_lines 5001 [(0, 10 ^ 12), (1, 10 ^ 12 + 250), (0, 10 ^ 12 + 500)]
      (level_hachure_options 0) = None"
    using out by (simp add: level_polygon_lines level_gap_zero)
  have c: "polygon_lines 5002 [(0, 10 ^ 12), (1, 10 ^ 12 + 250), (0, 10 ^ 12 + 500)]
      (level_hachure_options 0) \<noteq> None"
    using ret by (simp add: level_polygon_lines level_gap_zero)
  show ?thesis unfolding n using a b c by simp
qed

section \<open>Parsing a path string\<close>

lemma path_tokens_1: "path_tokens ''1'' = [''1'']"
  by (simp add: path_tokens_def strip_def is_space_def is_cmd_char_def)

lemma strip_1: "strip ''1'' = ''1''"
  by (simp add: strip_def is_space_def)

lemma parse_tokens_skip:
  "\<not> is_cmd t \<Longrightarrow> float t = None \<Longrightarrow> parse_tokens float (t # ts) segs = parse_tokens float ts segs"
  by simp

text \<open>
  C4.  The parser skips a token that \<open>float\<close> rejects, but a number that comes before
  any command letter reaches \<open>segs[-1]\<close> on an empty list: on the path \<open>"1"\<close>, for
  every \<open>float\<close> that reads \<open>"1"\<close> as a number, \<open>parsePathCommands\<close> and with it
  \<open>svgPath\<close> raise \<open>IndexError\<close>, whatever the options.
\<close>

theorem svgPath_leading_number_raises:
  assumes "float ''1'' = Some v"
  shows "parsePathCommands float ''1'' = Inl IndexError
       \<and> svgPath float ''1'' opts w = Inl IndexError"
  using assms
  by (simp add: svgPath_def parsePathCommands_def path_tokens_1 strip_1 is_cmd_def is_cmd_char_def)

theorem svgPath_leading_number_raises_witness:
  "float_one ''1'' = Some 1
   \<and> svgPath float_one ''1'' (seed_options 1) (fresh_world zero_source) = Inl IndexError"
  using svgPath_leading_number_raises[of float_one 1 "seed_options 1" "fresh_world zero_source"]
  by (simp add: float_one_def)

section \<open>Dots fill\<close>

lemma random_random_unit:
  assumes "unit_source w"
  shows "0 \<le> fst (random_random w)" "fst (random_random w) < 1" "unit_source (snd (random_random w))"
  using assms by (simp_all add: random_random_def unit_source_def)

lemma jitter_within:
  fixes r ro :: real
  assumes "0 \<le> r" "r < 1" "0 \<le> ro"
  shows "\<bar>(c - ro) + r * (2 * ro) - c\<bar> \<le> ro"
proof -
  have "(c - ro) + r * (2 * ro) - c = ro * (2 * r - 1)" by (simp add: algebra_simps)
  moreover have "\<bar>2 * r - 1\<bar> \<le> 1" using assms by (simp add: abs_le_iff)
  ultimately have "\<bar>(c - ro) + r * (2 * ro) - c\<bar> = ro * \<bar>2 * r - 1\<bar>"
    using assms(3) by (simp add: abs_mult)
  also have "\<dots> \<le> ro * 1" using assms(3) \<open>\<bar>2 * r - 1\<bar> \<le> 1\<close> by (rule mult_left_mono[rotated])
  finally show ?thesis by simp
qed

lemma dots_loop_trace:
  assumes keep: "\<forall>cx cy a b v. unit_source v \<longrightarrow> unit_source (snd (ell cx cy a b opts v))"
      and gap: "0 \<le> gap"
  shows "unit_source w \<Longrightarrow>
    \<exists>cs ws. length cs = n \<and> length ws = n
      \<and> fst (dots_loop ell opts x minY offset gap i n w)
          = concat (map (\<lambda>(c, v). fst (ell (fst c) (snd c) (dots_fweight opts) (dots_fweight opts) opts v))
                      (zip cs ws))
      \<and> (\<forall>j < n. \<bar>fst (cs ! j) - x\<bar> \<le> gap / 4
                 \<and> \<bar>snd (cs ! j) - (minY + offset + real (i + j) * gap)\<bar> \<le> gap / 4)"
proof (induction n arbitrary: i w)
  case 0
  show ?case by simp
next
  case (Suc n)
  let ?ro = "gap / 4"
  let ?y = "minY + offset + real i * gap"
  obtain r1 w1 where 1: "random_random w = (r1, w1)" by (cases "random_random w")
  obtain r2 w2 where 2: "random_random w1 = (r2, w2)" by (cases "random_random w1")
  let ?cx = "(x - ?ro) + r1 * (2 * ?ro)"
  let ?cy = "(?y - ?ro) + r2 * (2 * ?ro)"
  obtain ops w3 where 3: "ell ?cx ?cy (dots_fweight opts) (dots_fweight opts) opts w2 = (ops, w3)"
    by (cases "ell ?cx ?cy (dots_fweight opts) (dots_fweight opts) opts w2")
  have r1: "0 \<le> r1" "r1 < 1" and u1: "unit_source w1"
    using random_random_unit[OF Suc.prems] by (simp_all add: 1)
  have r2: "0 \<le> r2" "r2 < 1" and u2: "unit_source w2"
    using random_random_unit[OF u1] by (simp_all add: 2)
  have u3: "unit_source w3" using keep u2 3 by (metis snd_conv)
  from Suc.IH[OF u3, of "Suc i"] obtain cs ws where
    ih: "length cs = n" "length ws = n"
      "fst (dots_loop ell opts x minY offset gap (Suc i) n w3)
          = concat (map (\<lambda>(c, v). fst (ell (fst c) (snd c) (dots_fweight opts) (dots_fweight opts) opts v))
                      (zip cs ws))"
      "\<forall>j < n. \<bar>fst (cs ! j) - x\<bar> \<le> gap / 4
                 \<and> \<bar>snd (cs ! j) - (minY + offset + real (Suc i + j) * gap)\<bar> \<le> gap / 4"
    by blast
  have ro: "0 \<le> ?ro" using gap by simp
  have bx: "\<bar>?cx - x\<bar> \<le> ?ro" by (rule jitter_within[OF r1 ro])
  have by': "\<bar>?cy - ?y\<bar> \<le> ?ro" by (rule jitter_within[OF r2 ro])
  have out: "fst (dots_loop ell opts x minY offset gap i (Suc n) w)
      = fst (ell ?cx ?cy (dots_fweight opts) (dots_fweight opts) opts w2)
        @ fst (dots_loop ell opts x minY offset gap (Suc i) n w3)"
    by (simp only: dots_loop.simps Let_def 1 2 3 prod.case fst_conv)
       (simp add: case_prod_beta del: dots_loop.simps)
  have bounds: "\<forall>j < Suc n. \<bar>fst (((?cx, ?cy) # cs) ! j) - x\<bar> \<le> gap / 4
         \<and> \<bar>snd (((?cx, ?cy) # cs) ! j) - (minY + offset + real (i + j) * gap)\<bar> \<le> gap / 4"
  proof (intro allI impI)
    fix j assume "j < Suc n"
    show "\<bar>fst (((?cx, ?cy) # cs) ! j) - x\<bar> \<le> gap / 4
         \<and> \<bar>snd (((?cx, ?cy) # cs) ! j) - (minY + offset + real (i + j) * gap)\<bar> \<le> gap / 4"
    proof (cases j)
      case 0
      then show ?thesis using bx by' by simp
    next
      case (Suc k)
      with \<open>j < Suc n\<close> have "k < n" by simp
      with ih(4) show ?thesis by (simp add: Suc)
    qed
  qed
  show ?case
    apply (rule exI[of _ "(?cx, ?cy) # cs"], rule exI[of _ "w2 # ws"])
    using ih(1,2) bounds by (simp add: out ih(3) del: dots_loop.simps)
qed


lemma dots_count_eq:
  "0 < gap \<Longrightarrow> dots_count gap lin = nat (max 0 (\<lceil>line_length lin / gap\<rceil> - 1))"
  by (simp add: dots_count_def Let_def max_def)

text \<open>
  C5 (amended).  The dots fill takes the hachure lines of a copy of the options whose
  hachure angle is 0.  Along a line of length \<open>L\<close> it asks the helper for exactly
  \<open>max(0, \<lceil>L / gap\<rceil> - 1)\<close> ellipses, each of width and height \<open>fillWeight\<close> (the
  weight of \<open>_dotsOnLines\<close>), the operations of which it concatenates.  The ideal
  centres are spaced by the gap along the ordinate, and each centre is displaced from
  its ideal position by at most \<open>gap / 4\<close> in each axis, when the random draws lie in
  \<open>[0, 1)\<close>.
\<close>

theorem dots_along_a_line:
  assumes "unit_source w"
      and "\<forall>cx cy a b v. unit_source v \<longrightarrow> unit_source (snd (ell cx cy a b opts v))"
  shows "DotFiller_fillPolygons ell fuel polygonList opts w
           = map_option (\<lambda>lines. dotsOnLines ell lines opts w)
               (polygon_hachure_lines fuel polygonList (opts\<lparr>hachureAngle := Some 0\<rparr>))
       \<and> (\<exists>cs ws.
             length cs = nat (max 0 (\<lceil>line_length lin / hachure_gap opts\<rceil> - 1))
           \<and> length ws = length cs
           \<and> fst (dotsOnLine ell lin opts w)
               = concat (map (\<lambda>(c, v). fst (ell (fst c) (snd c) (dots_fweight opts)
                                                (dots_fweight opts) opts v)) (zip cs ws))
           \<and> (\<forall>j < length cs.
                 \<bar>fst (cs ! j) - ((fst (fst lin) + fst (snd lin)) * 0.5 - hachure_gap opts * 0.25)\<bar>
                   \<le> hachure_gap opts / 4
               \<and> \<bar>snd (cs ! j) - (min (snd (fst lin)) (snd (snd lin))
                                     + (line_length lin - real (length cs) * hachure_gap opts)
                                     + real j * hachure_gap opts)\<bar>
                   \<le> hachure_gap opts / 4))"
proof -
  have g: "0 < hachure_gap opts" using hachure_gap_ge[of opts] by simp
  then have g0: "0 \<le> hachure_gap opts" by simp
  have a: "DotFiller_fillPolygons ell fuel polygonList opts w
           = map_option (\<lambda>lines. dotsOnLines ell lines opts w)
               (polygon_hachure_lines fuel polygonList (opts\<lparr>hachureAngle := Some 0\<rparr>))"
    by (simp add: DotFiller_fillPolygons_def Let_def split: option.splits)
  from dots_loop_trace[where ell = ell and opts = opts, OF assms(2) g0 assms(1),
      of "dots_count (hachure_gap opts) lin"
         "(fst (fst lin) + fst (snd lin)) * 0.5 - hachure_gap opts * 0.25"
         "min (snd (fst lin)) (snd (snd lin))"
         "line_length lin - real (dots_count (hachure_gap opts) lin) * hachure_gap opts" 0]
  obtain cs ws where t: "length cs = dots_count (hachure_gap opts) lin"
     "length ws = dots_count (hachure_gap opts) lin"
     "fst (dots_loop ell opts ((fst (fst lin) + fst (snd lin)) * 0.5 - hachure_gap opts * 0.25)
             (min (snd (fst lin)) (snd (snd lin)))
             (line_length lin - real (dots_count (hachure_gap opts) lin) * hachure_gap opts)
             (hachure_gap opts) 0 (dots_count (hachure_gap opts) lin) w)
        = concat (map (\<lambda>(c, v). fst (ell (fst c) (snd c) (dots_fweight opts)
                                                (dots_fweight opts) opts v)) (zip cs ws))"
     "\<forall>j < dots_count (hachure_gap opts) lin.
         \<bar>fst (cs ! j) - ((fst (fst lin) + fst (snd lin)) * 0.5 - hachure_gap opts * 0.25)\<bar>
             \<le> hachure_gap opts / 4
       \<and> \<bar>snd (cs ! j) - (min (snd (fst lin)) (snd (snd lin))
               + (line_length lin - real (dots_count (hachure_gap opts) lin) * hachure_gap opts)
               + real (0 + j) * hachure_gap opts)\<bar> \<le> hachure_gap opts / 4"
    by blast
  have d: "fst (dotsOnLine ell lin opts w)
      = concat (map (\<lambda>(c, v). fst (ell (fst c) (snd c) (dots_fweight opts)
                                                (dots_fweight opts) opts v)) (zip cs ws))"
    unfolding dotsOnLine_def Let_def by (rule t(3))
  have "\<exists>cs ws.
             length cs = nat (max 0 (\<lceil>line_length lin / hachure_gap opts\<rceil> - 1))
           \<and> length ws = length cs
           \<and> fst (dotsOnLine ell lin opts w)
               = concat (map (\<lambda>(c, v). fst (ell (fst c) (snd c) (dots_fweight opts)
                                                (dots_fweight opts) opts v)) (zip cs ws))
           \<and> (\<forall>j < length cs.
                 \<bar>fst (cs ! j) - ((fst (fst lin) + fst (snd lin)) * 0.5 - hachure_gap opts * 0.25)\<bar>
                   \<le> hachure_gap opts / 4
               \<and> \<bar>snd (cs ! j) - (min (snd (fst lin)) (snd (snd lin))
                                     + (line_length lin - real (length cs) * hachure_gap opts)
                                     + real j * hachure_gap opts)\<bar>
                   \<le> hachure_gap opts / 4)"
    apply (rule exI[of _ cs], rule exI[of _ ws])
    using t(1,2,4) d by (simp add: dots_count_eq[OF g])
  with a show ?thesis by blast
qed

lemma sqrt_100: "sqrt 100 = 10"
  by (rule real_sqrt_unique) simp_all

lemma dots_example_gap: "hachure_gap (seed_options s) = 7 / 2"
  by (simp add: hachure_gap_def seed_options_eval)

lemma dots_example_count: "dots_count (7 / 2) ((0, 0), (0, 10)) = Suc (Suc 0)"
proof -
  have "\<lceil>(20 :: real) / 7\<rceil> = 3" by (simp add: ceiling_eq_iff)
  then show ?thesis by (simp add: dots_count_def line_length_def sqrt_100 Let_def)
qed

lemma dots_example_fweight: "dots_fweight (seed_options s) = 1"
  by (simp add: dots_fweight_def seed_options_eval)

text \<open>
  C5 as stated fails twice on the line from \<open>(0, 0)\<close> to \<open>(0, 10)\<close> with the default
  options and seed 1 (gap 3.5): the ellipses have width and height 1, the fill weight,
  not the radius \<open>gap / 4\<close>; and their centres follow the system generator, not the
  seeded one: the same seed gives other centres when the system generator returns
  halves instead of zeros.
\<close>

theorem dots_use_system_generator:
  "fst (dotsOnLine recording_ellipse ((0, 0), (0, 10)) (seed_options 1) (fresh_world zero_source))
     = [Op ''ellipse'' [- 1.75, 2.125, 1, 1], Op ''ellipse'' [- 1.75, 5.625, 1, 1]]
   \<and> fst (dotsOnLine recording_ellipse ((0, 0), (0, 10)) (seed_options 1) (fresh_world half_source))
     = [Op ''ellipse'' [- 0.875, 3, 1, 1], Op ''ellipse'' [- 0.875, 6.5, 1, 1]]"
  by (simp add: dotsOnLine_def dots_example_gap dots_example_count Let_def
        line_length_def sqrt_100 random_random_def fresh_world_def zero_source_def half_source_def
        recording_ellipse_def dots_example_fweight)

theorem dots_along_a_line_witness:
  "unit_source (fresh_world zero_source)
   \<and> length (fst (dotsOnLine recording_ellipse ((0, 0), (0, 10)) (seed_options 1)
                     (fresh_world zero_source))) = 2"
proof -
  have h1: "unit_source (fresh_world zero_source)"
    by (simp add: unit_source_def fresh_world_def zero_source_def)
  have h2: "\<forall>cx cy a b v. unit_source v \<longrightarrow>
      unit_source (snd (recording_ellipse cx cy a b (seed_options 1) v))"
    by (simp add: recording_ellipse_def)
  from dots_along_a_line[where ell = recording_ellipse and opts = "seed_options 1",
      OF h1 h2, of 0 "[]" "((0, 0), (0, 10))"]
  obtain cs ws where
    "length cs = nat (max 0 (\<lceil>line_length ((0, 0), (0, 10)) / hachure_gap (seed_options 1)\<rceil> - 1))"
    "length ws = length cs"
    "fst (dotsOnLine recording_ellipse ((0, 0), (0, 10)) (seed_options 1) (fresh_world zero_source))
       = concat (map (\<lambda>(c, v). fst (recording_ellipse (fst c) (snd c)
            (dots_fweight (seed_options 1)) (dots_fweight (seed_options 1)) (seed_options 1) v))
            (zip cs ws))"
    by blast
  moreover have "\<lceil>(20 :: real) / 7\<rceil> = 3" by (simp add: ceiling_eq_iff)
  moreover have "length (concat (map (\<lambda>(c, v). fst (recording_ellipse (fst c) (snd c) a b o' v)) zs))
      = length zs" for a b o' and zs :: "((real \<times> real) \<times> world) list"
    by (induction zs) (auto simp: recording_ellipse_def)
  ultimately show ?thesis using h1
    by (simp add: line_length_def sqrt_100 dots_example_gap)
qed

section \<open>Scan lines through a vertex\<close>

text \<open>
  C9 fails on the triangle \<open>(0, 0)\<close>, \<open>(2, 1)\<close>, \<open>(0, 2)\<close> with level scan lines
  (\<open>hachureAngle = -90\<close>): the gap 1.5 gives one segment, at height 1.5, and the finer
  gap 1 gives none.  Its scan lines at heights 0, 1 and 2 each pass through a vertex,
  where \<open>_edge_intersects_scanline\<close> counts neither edge that ends there: at height 1 the
  list of crossings holds the crossing of the left side alone, so that no span is
  emitted although the line runs through the inside of the triangle from 0 to 2.
\<close>

theorem finer_gap_loses_segments:
  "map_option length (polygon_hachure_lines 3 [[(0, 0), (2, 1), (0, 2)]] (level_hachure_options 1.5))
     = Some 1
   \<and> map_option length (polygon_hachure_lines 3 [[(0, 0), (2, 1), (0, 2)]] (level_hachure_options 1))
     = Some 0
   \<and> horizontalIntersectionsNonZero
        (rotated_polygon (level_hachure_options 1) [(0, 0), (2, 1), (0, 2)]) 1 = [(0, - 1)]"
  by (simp add: level_polygon_lines level_gap level_rotated tri_sweep_coarse tri_sweep_fine
        crossings_tri_1)


end
